theory Spec2Isabelle
  imports Complex_Main
begin

section \<open>The virtual-list custom element\<close>

text \<open>
  A shallow embedding of the class \<open>VirtualListElement\<close> (the custom element
  \<open><virtual-list></virtual-list>\<close>).  The element's private fields, the part of the DOM it
  touches, the virtualization engine as the element observes it and the host's
  scheduling queues are the fields of one record.  A method that cannot raise is
  a function from that record to that record; a method that can is a function to
  a completion, which holds the state the method left behind together with the
  exception it raised, if any (a JavaScript exception does not undo the
  assignments made before it).
\<close>

subsection \<open>Values of the host\<close>

text \<open>
  A JavaScript number as the element uses it.  The only operations the source
  applies to numbers are \<open>Number.isFinite\<close>, \<open>Math.floor\<close>,
  \<open>Math.max(0, _)\<close> and \<open>index + 1\<close> on a registry index, all of which are
  exact on doubles, so a finite number is carried as a rational.
\<close>

datatype number = Fin rat | NaN | PosInfinity | NegInfinity

fun isFinite :: "number \<Rightarrow> bool" where
  "isFinite (Fin q) = True"
| "isFinite NaN = False"
| "isFinite PosInfinity = False"
| "isFinite NegInfinity = False"

datatype js_error = NotFoundError | ReferenceError

text \<open>
  What the host environment provides: the conversion \<open>Number(string)\<close>, and
  whether the globals \<open>requestAnimationFrame\<close> and \<open>cancelAnimationFrame\<close>
  are functions (the source tests each with \<open>typeof\<close>).
\<close>

record host_env =
  Number_of :: "string \<Rightarrow> number"
  has_requestAnimationFrame :: bool
  has_cancelAnimationFrame :: bool

subsection \<open>DOM nodes\<close>

datatype node_type =
  ELEMENT_NODE | TEXT_NODE | CDATA_SECTION_NODE | PROCESSING_INSTRUCTION_NODE | COMMENT_NODE

text \<open>
  A node is known by its identity; its type never changes, nor does whether it
  is an instance of \<open>HTMLElement\<close> (an \<open>svg\<close> element is an element and is
  not one; no node of another type is one).
\<close>

datatype node = Node (nodeType: node_type) (isHTMLElement: bool) (ref: nat)

type_synonym attributes = "string \<rightharpoonup> string"

text \<open>
  Style values are kept structured: \<open>Px q\<close> is the text \<open>q\<close> followed by
  \<open>px\<close>, \<open>Percent n\<close> is \<open>n%\<close>, \<open>Zero\<close> is the bare \<open>0\<close> of the
  transform templates.
\<close>

datatype css_length = Px rat | Percent nat | Zero

datatype css_transform = Translate3d css_length css_length css_length

record sizer =
  style_width :: "css_length option"
  style_height :: "css_length option"

record container =
  children :: "node list"
  style_transform :: "css_transform option"

subsection \<open>The virtualization engine, as the element observes it\<close>

datatype orientation = Vertical | Horizontal

text \<open>
  An entry of the visible window.  The engine's indices are integers; one that
  is not an index of the registry selects no item (\<open>item_at\<close> below).
\<close>

record virtual_item =
  vi_index :: int
  vi_start :: rat
  vi_size :: rat
  vi_end :: rat

text \<open>
  The data fields of the options object built by \<open>#createOptions\<close>.  Its
  closures (\<open>estimateSize\<close>, \<open>getItemKey\<close>, \<open>onChange\<close>) read the element
  when they are called, and are functions of the element's state below.
\<close>

record engine_options =
  opt_count :: nat
  opt_overscan :: int
  opt_horizontal :: bool
  opt_paddingStart :: rat
  opt_paddingEnd :: rat
  opt_scrollPaddingStart :: rat
  opt_scrollPaddingEnd :: rat

text \<open>
  The engine (\<open>@tanstack/virtual-core\<close>) is not part of the repository.  An
  instance is modelled after the repository's test double \<open>MockVirtualizer\<close>:
  it records the calls made to it, and \<open>virtualItems\<close> and \<open>totalSize\<close> are
  what \<open>getVirtualItems()\<close> and \<open>getTotalSize()\<close> return.
\<close>

record virtualizer =
  instance_id :: nat
  options :: engine_options
  setOptionsCalls :: "engine_options list"
  willUpdateCount :: nat
  measureCount :: nat
  measureElementCalls :: "node list"
  virtualItems :: "virtual_item list"
  totalSize :: rat

subsection \<open>The element and its surroundings\<close>

datatype observer = Observer (observing: bool)

text \<open>
  Of the scroll element only its existence matters to the element's methods, so
  \<open>#scrollElement\<close> is a flag; the sizer and the items container carry the
  style properties and children the methods write.
\<close>

record vl_state =
  \<comment> \<open>the private fields of the class\<close>
  virtualizer :: "virtualizer option"
  virtualizerCleanup :: "nat option"
  items :: "node list"
  scrollElement :: bool
  sizerElement :: "sizer option"
  itemsContainer :: "container option"
  initialized :: bool
  mutationObserver :: "observer option"
  orientation :: orientation
  estimateSize :: rat
  overscan :: int
  paddingStart :: rat
  paddingEnd :: rat
  scrollPaddingStart :: rat
  scrollPaddingEnd :: rat
  rafId :: "nat option"
  \<comment> \<open>the element's own attributes and light-DOM children, the attributes of other elements\<close>
  hostAttributes :: attributes
  childNodes :: "node list"
  attributesOf :: "node \<Rightarrow> attributes"
  \<comment> \<open>the host: its built-ins, pending frame callbacks, queued measurement microtasks\<close>
  host :: host_env
  animationFrames :: "nat list"
  nextFrameHandle :: nat
  microtasks :: nat
  \<comment> \<open>the engine side: instances created so far, teardown handles invoked so far\<close>
  instanceCount :: nat
  cleanupCalls :: "nat list"

datatype completion = Returned (state_of: vl_state) | Threw js_error (state_of: vl_state)

fun returned :: "completion \<Rightarrow> bool" where
  "returned (Returned s) = True"
| "returned (Threw e s) = False"

text \<open>Sequencing: the rest of a method runs only if the call before it returned.\<close>

fun andThen :: "completion \<Rightarrow> (vl_state \<Rightarrow> completion) \<Rightarrow> completion" where
  "andThen (Returned s) f = f s"
| "andThen (Threw e s) f = Threw e s"

subsection \<open>Host and DOM operations used by the element\<close>

text \<open>\<open>String(n)\<close> for an integer: its decimal digits, with a sign when negative.\<close>

definition digit_char :: "nat \<Rightarrow> char" where
  "digit_char d = ''0123456789'' ! d"

function String_nat :: "nat \<Rightarrow> string" where
  "String_nat n = (if n < 10 then [digit_char n] else String_nat (n div 10) @ [digit_char (n mod 10)])"
  by pat_completeness auto
termination
  by (relation "measure (\<lambda>n. n)") auto

definition String_int :: "int \<Rightarrow> string" where
  "String_int i = (if i < 0 then CHR ''-'' # String_nat (nat (- i)) else String_nat (nat i))"

text \<open>
  \<open>xs[i]\<close> on an array: \<open>undefined\<close> (here \<open>None\<close>) unless \<open>i\<close> is an index
  of the array.
\<close>

definition item_at :: "node list \<Rightarrow> int \<Rightarrow> node option" where
  "item_at xs i = (if 0 \<le> i \<and> i < int (length xs) then Some (xs ! nat i) else None)"

definition hasAttribute :: "vl_state \<Rightarrow> node \<Rightarrow> string \<Rightarrow> bool" where
  "hasAttribute s n name = (attributesOf s n name \<noteq> None)"

definition setAttribute :: "node \<Rightarrow> string \<Rightarrow> string \<Rightarrow> vl_state \<Rightarrow> vl_state" where
  "setAttribute n name v s = s\<lparr>attributesOf := (attributesOf s)(n := (attributesOf s n)(name \<mapsto> v))\<rparr>"

text \<open>
  \<open>element.id\<close> reflects the \<open>id\<close> content attribute: it is always a string,
  the empty string when the attribute is absent.
\<close>

definition id_of :: "attributes \<Rightarrow> string" where
  "id_of a = (case a ''id'' of Some v \<Rightarrow> v | None \<Rightarrow> [])"

text \<open>
  \<open>this.removeChild(node)\<close>: the node leaves the element's child list; the DOM
  raises \<open>NotFoundError\<close> when the node is not a child.  \<open>node.parentNode === this\<close>
  is membership in \<open>childNodes\<close>.
\<close>

definition withoutChild :: "node \<Rightarrow> vl_state \<Rightarrow> vl_state" where
  "withoutChild n s = s\<lparr>childNodes := remove1 n (childNodes s)\<rparr>"

definition removeChild :: "node \<Rightarrow> vl_state \<Rightarrow> completion" where
  "removeChild n s =
     (if n \<in> set (childNodes s) then Returned (withoutChild n s) else Threw NotFoundError s)"

text \<open>
  Appending a node to another parent takes it out of the parent it has.  Of the
  places a node can be, the state holds the element's light DOM and the items
  container.
\<close>

definition detach :: "node \<Rightarrow> vl_state \<Rightarrow> vl_state" where
  "detach n s =
     s\<lparr>childNodes := remove1 n (childNodes s),
       itemsContainer := map_option (\<lambda>c. c\<lparr>children := remove1 n (children c)\<rparr>) (itemsContainer s)\<rparr>"

text \<open>
  \<open>requestAnimationFrame(cb)\<close> queues the callback under a fresh handle and
  returns the handle (\<open>nextFrameHandle\<close> of the state it is applied to);
  \<open>cancelAnimationFrame(h)\<close> takes the callback with that handle out of the queue.
\<close>

definition requestAnimationFrame :: "vl_state \<Rightarrow> vl_state" where
  "requestAnimationFrame s =
     s\<lparr>animationFrames := animationFrames s @ [nextFrameHandle s],
       nextFrameHandle := Suc (nextFrameHandle s)\<rparr>"

definition cancelAnimationFrame :: "nat \<Rightarrow> vl_state \<Rightarrow> vl_state" where
  "cancelAnimationFrame h s = s\<lparr>animationFrames := removeAll h (animationFrames s)\<rparr>"

subsection \<open>Configuration\<close>

definition DEFAULT_ESTIMATE :: rat where
  "DEFAULT_ESTIMATE = 48"

definition DEFAULT_OVERSCAN :: int where
  "DEFAULT_OVERSCAN = 2"

definition NUMBER_ATTRIBUTES :: "string list" where
  "NUMBER_ATTRIBUTES =
     [''overscan'', ''estimate-size'', ''padding-start'', ''padding-end'',
      ''scroll-padding-start'', ''scroll-padding-end'']"

definition fallbackForAttribute :: "string \<Rightarrow> rat" where
  "fallbackForAttribute name =
     (if name = ''estimate-size'' then DEFAULT_ESTIMATE
      else if name = ''overscan'' then of_int DEFAULT_OVERSCAN
      else 0)"

definition createOptions :: "vl_state \<Rightarrow> engine_options" where
  "createOptions s =
     \<lparr>opt_count = length (items s),
      opt_overscan = overscan s,
      opt_horizontal = (orientation s = Horizontal),
      opt_paddingStart = paddingStart s,
      opt_paddingEnd = paddingEnd s,
      opt_scrollPaddingStart = scrollPaddingStart s,
      opt_scrollPaddingEnd = scrollPaddingEnd s\<rparr>"

text \<open>
  \<open>getItemKey\<close>: \<open>item?.id ?? index\<close>.  The operator \<open>??\<close> takes its right
  operand only when the left one is \<open>null\<close> or \<open>undefined\<close>, which \<open>item?.id\<close>
  is only when \<open>item\<close> is \<open>undefined\<close>.
\<close>

datatype item_key = KeyString string | KeyNumber int

definition getItemKey :: "vl_state \<Rightarrow> int \<Rightarrow> item_key" where
  "getItemKey s index =
     (case item_at (items s) index of
        None \<Rightarrow> KeyNumber index
      | Some item \<Rightarrow> KeyString (id_of (attributesOf s item)))"

text \<open>\<open>#getEstimatedSize\<close>; \<open>if (attr)\<close> fails for a missing and for an empty attribute.\<close>

definition getEstimatedSize :: "vl_state \<Rightarrow> int \<Rightarrow> rat" where
  "getEstimatedSize s index =
     (case item_at (items s) index of
        None \<Rightarrow> estimateSize s
      | Some item \<Rightarrow>
          (case attributesOf s item ''data-estimate-size'' of
             None \<Rightarrow> estimateSize s
           | Some attr \<Rightarrow>
               if attr = [] then estimateSize s
               else (case Number_of (host s) attr of
                       Fin parsed \<Rightarrow> parsed
                     | _ \<Rightarrow> estimateSize s)))"

subsection \<open>Deferred measurement\<close>

text \<open>
  The closure \<open>measure\<close> of \<open>#scheduleMeasurement\<close>: it clears \<open>#rafId\<close> and
  asks the engine to measure every child of the items container that is an
  instance of \<open>HTMLElement\<close> (\<open>children\<close> holds the element children).
\<close>

definition measure_callback :: "vl_state \<Rightarrow> vl_state" where
  "measure_callback s =
     (case virtualizer s of
        None \<Rightarrow> s\<lparr>rafId := None\<rparr>
      | Some v \<Rightarrow>
          (case itemsContainer s of
             None \<Rightarrow> s\<lparr>rafId := None\<rparr>
           | Some c \<Rightarrow>
               s\<lparr>rafId := None,
                 virtualizer := Some (v\<lparr>measureElementCalls :=
                   measureElementCalls v
                     @ filter (\<lambda>n. nodeType n = ELEMENT_NODE \<and> isHTMLElement n) (children c)\<rparr>)\<rparr>))"

text \<open>
  \<open>#scheduleMeasurement\<close>.  With \<open>requestAnimationFrame\<close> a pending frame is
  cancelled before the new one is requested; calling the global
  \<open>cancelAnimationFrame\<close> where the host has none raises \<open>ReferenceError\<close>.
  Without \<open>requestAnimationFrame\<close> the callback is queued as a microtask.
\<close>

definition scheduleMeasurement :: "vl_state \<Rightarrow> completion" where
  "scheduleMeasurement s =
     (if virtualizer s = None \<or> itemsContainer s = None then Returned s
      else if has_requestAnimationFrame (host s) then
        (case rafId s of
           None \<Rightarrow> Returned ((requestAnimationFrame s)\<lparr>rafId := Some (nextFrameHandle s)\<rparr>)
         | Some h \<Rightarrow>
             if has_cancelAnimationFrame (host s) then
               Returned ((requestAnimationFrame (cancelAnimationFrame h s))\<lparr>rafId := Some (nextFrameHandle s)\<rparr>)
             else Threw ReferenceError s)
      else Returned (s\<lparr>microtasks := Suc (microtasks s)\<rparr>))"

text \<open>The host running a pending frame callback, and the next queued microtask.\<close>

definition runAnimationFrame :: "nat \<Rightarrow> vl_state \<Rightarrow> vl_state" where
  "runAnimationFrame h s =
     (if h \<in> set (animationFrames s)
      then measure_callback (s\<lparr>animationFrames := removeAll h (animationFrames s)\<rparr>)
      else s)"

definition runMicrotask :: "vl_state \<Rightarrow> vl_state" where
  "runMicrotask s =
     (if 0 < microtasks s then measure_callback (s\<lparr>microtasks := microtasks s - 1\<rparr>) else s)"

subsection \<open>Rendering\<close>

text \<open>
  The loop of \<open>#render\<close> over the visible window, with the fragment built so
  far.  \<open>fragment.appendChild(item)\<close> moves the item: out of its parent (which
  may be the fragment itself) and to the end of the fragment.
\<close>

fun render_loop :: "virtual_item list \<Rightarrow> node list \<Rightarrow> vl_state \<Rightarrow> node list \<times> vl_state" where
  "render_loop [] fragment s = (fragment, s)"
| "render_loop (virtualItem # rest) fragment s =
     (case item_at (items s) (vi_index virtualItem) of
        None \<Rightarrow> render_loop rest fragment s
      | Some item \<Rightarrow>
          render_loop rest (remove1 item fragment @ [item])
            (detach item
              (setAttribute item ''aria-posinset'' (String_int (vi_index virtualItem + 1))
                (setAttribute item ''aria-setsize'' (String_nat (length (items s))) s))))"

definition firstStart :: "virtual_item list \<Rightarrow> rat" where
  "firstStart window = (case window of [] \<Rightarrow> 0 | first # rest \<Rightarrow> vi_start first)"

text \<open>\<open>#render\<close> up to, and without, its last statement \<open>this.#scheduleMeasurement()\<close>.\<close>

definition render_tree :: "virtualizer \<Rightarrow> sizer \<Rightarrow> vl_state \<Rightarrow> vl_state" where
  "render_tree v z s =
     (let horizontal = (orientation s = Horizontal);
          s1 = s\<lparr>sizerElement := Some
                 (if horizontal
                  then z\<lparr>style_width := Some (Px (totalSize v)), style_height := Some (Percent 100)\<rparr>
                  else z\<lparr>style_height := Some (Px (totalSize v)), style_width := Some (Percent 100)\<rparr>)\<rparr>;
          looped = render_loop (virtualItems v) [] s1;
          s2 = snd looped
      in s2\<lparr>itemsContainer := map_option
               (\<lambda>c. c\<lparr>children := fst looped,
                      style_transform := Some
                        (if horizontal
                         then Translate3d (Px (firstStart (virtualItems v))) Zero Zero
                         else Translate3d Zero (Px (firstStart (virtualItems v))) Zero)\<rparr>)
               (itemsContainer s2)\<rparr>)"

definition render :: "vl_state \<Rightarrow> completion" where
  "render s =
     (case virtualizer s of
        None \<Rightarrow> Returned s
      | Some v \<Rightarrow>
          (case sizerElement s of
             None \<Rightarrow> Returned s
           | Some z \<Rightarrow>
               if itemsContainer s = None then Returned s
               else scheduleMeasurement (render_tree v z s)))"

text \<open>The option \<open>onChange\<close>, called by an engine instance with itself.\<close>

definition onChange :: "nat \<Rightarrow> vl_state \<Rightarrow> completion" where
  "onChange inst s =
     (case virtualizer s of
        None \<Rightarrow> Returned s
      | Some v \<Rightarrow> if inst = instance_id v then render s else Returned s)"

subsection \<open>The engine's lifecycle\<close>

text \<open>
  The four statements shared by \<open>#updateVirtualizerOptions\<close> and the first
  branch of \<open>#mountVirtualizer\<close>: \<open>_willUpdate()\<close>, \<open>setOptions(...)\<close>,
  \<open>measure()\<close>, \<open>#render()\<close>.
\<close>

definition pushOptions :: "virtualizer \<Rightarrow> vl_state \<Rightarrow> completion" where
  "pushOptions v s =
     render (s\<lparr>virtualizer := Some
       (v\<lparr>willUpdateCount := Suc (willUpdateCount v),
          options := createOptions s,
          setOptionsCalls := setOptionsCalls v @ [createOptions s],
          measureCount := Suc (measureCount v)\<rparr>)\<rparr>)"

definition updateVirtualizerOptions :: "vl_state \<Rightarrow> completion" where
  "updateVirtualizerOptions s =
     (case virtualizer s of
        None \<Rightarrow> Returned s
      | Some v \<Rightarrow> pushOptions v s)"

text \<open>
  \<open>new Virtualizer(options)\<close>: a fresh instance, which so far reports an empty
  window and a total extent of 0.  The handle returned by \<open>_didMount()\<close> is kept
  as the identity of the instance it tears down.
\<close>

definition newVirtualizer :: "nat \<Rightarrow> engine_options \<Rightarrow> virtualizer" where
  "newVirtualizer i opts =
     \<lparr>instance_id = i, options = opts, setOptionsCalls = [], willUpdateCount = 0,
      measureCount = 0, measureElementCalls = [], virtualItems = [], totalSize = 0\<rparr>"

definition mountVirtualizer :: "vl_state \<Rightarrow> completion" where
  "mountVirtualizer s =
     (if \<not> scrollElement s \<or> itemsContainer s = None then Returned s
      else
        (case virtualizer s of
           Some v \<Rightarrow> pushOptions v s
         | None \<Rightarrow>
             (let v = newVirtualizer (instanceCount s) (createOptions s)
              in render (s\<lparr>virtualizer := Some (v\<lparr>willUpdateCount := Suc (willUpdateCount v)\<rparr>),
                          virtualizerCleanup := Some (instance_id v),
                          instanceCount := Suc (instanceCount s)\<rparr>))))"

text \<open>
  \<open>#teardownVirtualizer\<close>.  Invoking the retained handle is recorded in
  \<open>cleanupCalls\<close>, one entry for each invocation.
\<close>

definition teardownVirtualizer :: "vl_state \<Rightarrow> vl_state" where
  "teardownVirtualizer s =
     (let s1 = (case rafId s of
                  None \<Rightarrow> s
                | Some h \<Rightarrow>
                    if has_cancelAnimationFrame (host s)
                    then (cancelAnimationFrame h s)\<lparr>rafId := None\<rparr>
                    else s);
          s2 = (case virtualizerCleanup s1 of
                  None \<Rightarrow> s1
                | Some i \<Rightarrow> s1\<lparr>cleanupCalls := cleanupCalls s1 @ [i], virtualizerCleanup := None\<rparr>)
      in s2\<lparr>virtualizer := None\<rparr>)"

subsection \<open>Attribute changes\<close>

text \<open>
  \<open>attributeChangedCallback(name, oldValue, newValue)\<close>; a \<open>null\<close> value is
  \<open>None\<close>.  \<open>applyAttribute\<close> is the part of the callback between the guard
  \<open>oldValue === newValue\<close> and the closing call of
  \<open>#updateVirtualizerOptions\<close>.  \<open>next\<close> is finite in every case, so
  \<open>Math.floor\<close> and \<open>Math.max\<close> are applied to finite numbers only.
\<close>

definition applyAttribute :: "string \<Rightarrow> string option \<Rightarrow> vl_state \<Rightarrow> vl_state" where
  "applyAttribute name newValue s =
     (if name = ''orientation'' then
        s\<lparr>orientation := (if newValue = Some ''horizontal'' then Horizontal else Vertical)\<rparr>
      else if name \<in> set NUMBER_ATTRIBUTES then
        (let parsed = (case newValue of Some v \<Rightarrow> Number_of (host s) v | None \<Rightarrow> NaN);
             fallback = fallbackForAttribute name;
             next = (case parsed of Fin q \<Rightarrow> q | _ \<Rightarrow> fallback)
         in if name = ''estimate-size'' then s\<lparr>estimateSize := next\<rparr>
            else if name = ''overscan'' then s\<lparr>overscan := max 0 \<lfloor>next\<rfloor>\<rparr>
            else if name = ''padding-start'' then s\<lparr>paddingStart := max 0 next\<rparr>
            else if name = ''padding-end'' then s\<lparr>paddingEnd := max 0 next\<rparr>
            else if name = ''scroll-padding-start'' then s\<lparr>scrollPaddingStart := max 0 next\<rparr>
            else if name = ''scroll-padding-end'' then s\<lparr>scrollPaddingEnd := max 0 next\<rparr>
            else s)
      else s)"

definition attributeChangedCallback ::
  "string \<Rightarrow> string option \<Rightarrow> string option \<Rightarrow> vl_state \<Rightarrow> completion" where
  "attributeChangedCallback name oldValue newValue s =
     (if oldValue = newValue then Returned s
      else updateVirtualizerOptions (applyAttribute name newValue s))"

subsection \<open>Capturing the light DOM\<close>

text \<open>
  \<open>#captureChildren\<close>: the loop over the snapshot \<open>Array.from(this.childNodes)\<close>
  with the local array \<open>items\<close>, and the assignment \<open>this.#items = items\<close> that
  follows the loop.
\<close>

fun captureChildren_loop :: "node list \<Rightarrow> node list \<Rightarrow> vl_state \<Rightarrow> completion" where
  "captureChildren_loop [] captured s = Returned (s\<lparr>items := captured\<rparr>)"
| "captureChildren_loop (n # nodes) captured s =
     (if nodeType n = ELEMENT_NODE then
        (case removeChild n
                (if hasAttribute s n ''role'' then s else setAttribute n ''role'' ''listitem'' s) of
           Returned s1 \<Rightarrow> captureChildren_loop nodes (captured @ [n]) s1
         | Threw e s1 \<Rightarrow> Threw e s1)
      else
        (case removeChild n s of
           Returned s1 \<Rightarrow> captureChildren_loop nodes captured s1
         | Threw e s1 \<Rightarrow> Threw e s1))"

definition captureChildren :: "vl_state \<Rightarrow> completion" where
  "captureChildren s = captureChildren_loop (childNodes s) [] s"

subsection \<open>Observing and reconciling the light DOM\<close>

text \<open>
  \<open>#startObservingLightDom\<close> creates the observer or disconnects the one there
  is, and in both cases ends with \<open>observe(this, {childList: true})\<close>.
\<close>

definition startObservingLightDom :: "vl_state \<Rightarrow> vl_state" where
  "startObservingLightDom s = s\<lparr>mutationObserver := Some (Observer True)\<rparr>"

definition stopObservingLightDom :: "vl_state \<Rightarrow> vl_state" where
  "stopObservingLightDom s =
     (case mutationObserver s of
        None \<Rightarrow> s
      | Some ob \<Rightarrow> s\<lparr>mutationObserver := None\<rparr>)"

record mutation_record =
  addedNodes :: "node list"
  removedNodes :: "node list"

text \<open>The local variables of \<open>#handleLightDomMutations\<close>, carried with the state.\<close>

record reconciliation =
  additions :: "node list"
  changed :: bool
  element_state :: vl_state

fun addedNodes_forEach :: "node list \<Rightarrow> reconciliation \<Rightarrow> reconciliation" where
  "addedNodes_forEach [] r = r"
| "addedNodes_forEach (n # nodes) r =
     addedNodes_forEach nodes
       (if nodeType n = ELEMENT_NODE then r\<lparr>additions := additions r @ [n]\<rparr>
        else if n \<in> set (childNodes (element_state r))
        then r\<lparr>element_state := withoutChild n (element_state r)\<rparr>
        else r)"

fun removedNodes_forEach :: "node list \<Rightarrow> reconciliation \<Rightarrow> reconciliation" where
  "removedNodes_forEach [] r = r"
| "removedNodes_forEach (n # nodes) r =
     removedNodes_forEach nodes
       (if nodeType n = ELEMENT_NODE \<and> n \<in> set (items (element_state r))
        then r\<lparr>element_state := (element_state r)\<lparr>items := remove1 n (items (element_state r))\<rparr>,
               changed := True\<rparr>
        else r)"

fun mutations_loop :: "mutation_record list \<Rightarrow> reconciliation \<Rightarrow> reconciliation" where
  "mutations_loop [] r = r"
| "mutations_loop (m # ms) r =
     mutations_loop ms (removedNodes_forEach (removedNodes m) (addedNodes_forEach (addedNodes m) r))"

fun additions_loop :: "node list \<Rightarrow> vl_state \<Rightarrow> vl_state" where
  "additions_loop [] s = s"
| "additions_loop (element # rest) s =
     (let s1 = (if hasAttribute s element ''role'' then s
                else setAttribute element ''role'' ''listitem'' s);
          s2 = (if element \<in> set (childNodes s1) then withoutChild element s1 else s1)
      in additions_loop rest (s2\<lparr>items := items s2 @ [element]\<rparr>))"

definition handleLightDomMutations :: "mutation_record list \<Rightarrow> vl_state \<Rightarrow> completion" where
  "handleLightDomMutations mutations s =
     (let r = mutations_loop mutations \<lparr>additions = [], changed = False, element_state = s\<rparr>
      in if additions r \<noteq> []
         then updateVirtualizerOptions (additions_loop (additions r) (element_state r))
         else if changed r then updateVirtualizerOptions (element_state r)
         else Returned (element_state r))"

subsection \<open>Activation and deactivation\<close>

definition setupShadowDom :: "vl_state \<Rightarrow> vl_state" where
  "setupShadowDom s =
     s\<lparr>scrollElement := True,
       sizerElement := Some \<lparr>style_width = None, style_height = None\<rparr>,
       itemsContainer := Some \<lparr>children = [], style_transform = None\<rparr>\<rparr>"

fun applyInitialAttributes_loop :: "string list \<Rightarrow> vl_state \<Rightarrow> completion" where
  "applyInitialAttributes_loop [] s = Returned s"
| "applyInitialAttributes_loop (name # names) s =
     (case hostAttributes s name of
        None \<Rightarrow> applyInitialAttributes_loop names s
      | Some v \<Rightarrow>
          (case attributeChangedCallback name None (Some v) s of
             Returned s1 \<Rightarrow> applyInitialAttributes_loop names s1
           | Threw e s1 \<Rightarrow> Threw e s1))"

definition applyInitialAttributes :: "vl_state \<Rightarrow> completion" where
  "applyInitialAttributes s =
     applyInitialAttributes_loop NUMBER_ATTRIBUTES
       (s\<lparr>orientation :=
            (if hostAttributes s ''orientation'' = Some ''horizontal'' then Horizontal else Vertical)\<rparr>)"

definition initialize :: "vl_state \<Rightarrow> completion" where
  "initialize s =
     (let s1 = s\<lparr>initialized := True\<rparr>;
          s2 = (if hostAttributes s1 ''role'' = None
                then s1\<lparr>hostAttributes := (hostAttributes s1)(''role'' \<mapsto> ''list'')\<rparr>
                else s1)
      in andThen (captureChildren s2)
           (\<lambda>s3. andThen (applyInitialAttributes (setupShadowDom s3))
             (\<lambda>s4. mountVirtualizer (startObservingLightDom s4))))"

definition connectedCallback :: "vl_state \<Rightarrow> completion" where
  "connectedCallback s =
     (if \<not> initialized s then initialize s
      else mountVirtualizer (startObservingLightDom s))"

definition disconnectedCallback :: "vl_state \<Rightarrow> vl_state" where
  "disconnectedCallback s = teardownVirtualizer (stopObservingLightDom s)"

text \<open>
  A newly constructed element: the field initialisers of the class, around the
  given host, attributes and child nodes.
\<close>

definition created ::
  "host_env \<Rightarrow> attributes \<Rightarrow> node list \<Rightarrow> (node \<Rightarrow> attributes) \<Rightarrow> vl_state" where
  "created h own nodes attrs =
     \<lparr>virtualizer = None, virtualizerCleanup = None, items = [], scrollElement = False,
      sizerElement = None, itemsContainer = None, initialized = False,
      mutationObserver = None, orientation = Vertical, estimateSize = DEFAULT_ESTIMATE,
      overscan = DEFAULT_OVERSCAN, paddingStart = 0, paddingEnd = 0,
      scrollPaddingStart = 0, scrollPaddingEnd = 0, rafId = None,
      hostAttributes = own, childNodes = nodes, attributesOf = attrs,
      host = h, animationFrames = [], nextFrameHandle = 1, microtasks = 0,
      instanceCount = 0, cleanupCalls = []\<rparr>"

text \<open>
  \<open>setVirtualState\<close> of the test double: the instance reports a new window and
  total extent and calls \<open>onChange\<close> with itself.  An instance the element no
  longer retains is not part of the state; only its call of \<open>onChange\<close> is.
\<close>

definition setVirtualState :: "nat \<Rightarrow> virtual_item list \<Rightarrow> rat \<Rightarrow> vl_state \<Rightarrow> completion" where
  "setVirtualState inst window extent s =
     (case virtualizer s of
        None \<Rightarrow> onChange inst s
      | Some v \<Rightarrow>
          if inst = instance_id v
          then onChange inst (s\<lparr>virtualizer := Some (v\<lparr>virtualItems := window, totalSize := extent\<rparr>)\<rparr>)
          else onChange inst s)"

subsection \<open>What happens to an element\<close>

text \<open>
  The calls the host makes on the element (its lifecycle callbacks, the
  mutation observer's callback, an engine instance's change notification, a
  frame callback or a microtask coming due), and the page editing the
  element's light DOM.  An exception ends the call and leaves the state as it is.
\<close>

datatype event =
    Connected
  | Disconnected
  | AttributeChanged string "string option" "string option"
  | MutationsDelivered "mutation_record list"
  | EngineChanged nat "virtual_item list" rat
  | FrameRuns nat
  | MicrotaskRuns
  | LightDomEdited "node list"

fun perform :: "event \<Rightarrow> vl_state \<Rightarrow> vl_state" where
  "perform Connected s = state_of (connectedCallback s)"
| "perform Disconnected s = disconnectedCallback s"
| "perform (AttributeChanged name oldValue newValue) s =
     state_of (attributeChangedCallback name oldValue newValue s)"
| "perform (MutationsDelivered mutations) s = state_of (handleLightDomMutations mutations s)"
| "perform (EngineChanged inst window extent) s = state_of (setVirtualState inst window extent s)"
| "perform (FrameRuns h) s = runAnimationFrame h s"
| "perform MicrotaskRuns s = runMicrotask s"
| "perform (LightDomEdited nodes) s = s\<lparr>childNodes := nodes\<rparr>"

definition run :: "event list \<Rightarrow> vl_state \<Rightarrow> vl_state" where
  "run events s = foldl (\<lambda>s1 e. perform e s1) s events"

text \<open>The measurement callbacks that are scheduled and have not run.\<close>

definition pendingMeasurements :: "vl_state \<Rightarrow> nat" where
  "pendingMeasurements s = length (animationFrames s) + microtasks s"

text \<open>
  The only pending callback is the frame whose handle \<open>#rafId\<close> holds, and the
  handles of pending frames are older than the next handle the host gives out.
\<close>

definition frames_tracked :: "vl_state \<Rightarrow> bool" where
  "frames_tracked s =
     (animationFrames s = (case rafId s of None \<Rightarrow> [] | Some h \<Rightarrow> [h])
      \<and> microtasks s = 0
      \<and> list_all (\<lambda>h. h < nextFrameHandle s) (animationFrames s))"

text \<open>
  The host provides both frame functions, and the pending callbacks are
  tracked as above.
\<close>

definition scheduling_invariant :: "vl_state \<Rightarrow> bool" where
  "scheduling_invariant s =
     (has_requestAnimationFrame (host s) \<and> has_cancelAnimationFrame (host s) \<and> frames_tracked s)"

text \<open>The elements a batch reports as added and as removed, in the order of the batch.\<close>

definition added_elements :: "mutation_record list \<Rightarrow> node list" where
  "added_elements mutations =
     filter (\<lambda>n. nodeType n = ELEMENT_NODE) (concat (map addedNodes mutations))"

definition removed_elements :: "mutation_record list \<Rightarrow> node list" where
  "removed_elements mutations =
     filter (\<lambda>n. nodeType n = ELEMENT_NODE) (concat (map removedNodes mutations))"

subsection \<open>Example hosts and lists\<close>

text \<open>
  The conversion of the example hosts.  It is \<open>Number(string)\<close> on the strings
  the examples use: on the empty string (0), on a decimal integer literal with
  an optional minus sign (its value) and on a word such as \<open>foo\<close> (\<open>NaN\<close>).
  It is not \<open>Number\<close> on the other numeric literals of the language (a
  fraction, an exponent, a plus sign, surrounding blanks, \<open>Infinity\<close>), which
  it takes to \<open>NaN\<close>.
\<close>

definition digit_value :: "char \<Rightarrow> nat option" where
  "digit_value c = map_of (zip ''0123456789'' [0, 1, 2, 3, 4, 5, 6, 7, 8, 9]) c"

fun digits_value :: "string \<Rightarrow> nat \<Rightarrow> nat option" where
  "digits_value [] acc = Some acc"
| "digits_value (c # cs) acc =
     (case digit_value c of
        None \<Rightarrow> None
      | Some d \<Rightarrow> digits_value cs (10 * acc + d))"

definition decimal_Number :: "string \<Rightarrow> number" where
  "decimal_Number str =
     (case str of
        [] \<Rightarrow> Fin 0
      | c # cs \<Rightarrow>
          if c = CHR ''-'' \<and> cs \<noteq> []
          then (case digits_value cs 0 of Some n \<Rightarrow> Fin (- of_nat n) | None \<Rightarrow> NaN)
          else (case digits_value (c # cs) 0 of Some n \<Rightarrow> Fin (of_nat n) | None \<Rightarrow> NaN))"

text \<open>A browser, and a host with neither \<open>requestAnimationFrame\<close> nor \<open>cancelAnimationFrame\<close>.\<close>

definition browser :: host_env where
  "browser =
     \<lparr>Number_of = decimal_Number, has_requestAnimationFrame = True,
      has_cancelAnimationFrame = True\<rparr>"

definition frameless :: host_env where
  "frameless =
     \<lparr>Number_of = decimal_Number, has_requestAnimationFrame = False,
      has_cancelAnimationFrame = False\<rparr>"

text \<open>
  An element written as
  \<open><virtual-list><div id="first"></div>text<div></div></virtual-list>\<close>: two
  \<open>div\<close> children, the second without an \<open>id\<close>, around a text node; then
  the same element once connected, and once the engine has reported both items
  visible.
\<close>

definition first_div :: node where
  "first_div = Node ELEMENT_NODE True 1"

definition text_node :: node where
  "text_node = Node TEXT_NODE False 2"

definition second_div :: node where
  "second_div = Node ELEMENT_NODE True 3"

definition authored :: "host_env \<Rightarrow> vl_state" where
  "authored h =
     created h Map.empty [first_div, text_node, second_div]
       ((\<lambda>n. Map.empty)(first_div := [''id'' \<mapsto> ''first'']))"

definition connected :: "host_env \<Rightarrow> vl_state" where
  "connected h = state_of (connectedCallback (authored h))"

definition both_visible :: "virtual_item list" where
  "both_visible =
     [\<lparr>vi_index = 0, vi_start = 12, vi_size = 24, vi_end = 36\<rparr>,
      \<lparr>vi_index = 1, vi_start = 36, vi_size = 24, vi_end = 60\<rparr>]"

definition showing :: "host_env \<Rightarrow> vl_state" where
  "showing h = state_of (setVirtualState 0 both_visible 96 (connected h))"

text \<open>The showing element disconnected and connected again.\<close>

definition reconnected :: "host_env \<Rightarrow> vl_state" where
  "reconnected h = state_of (connectedCallback (disconnectedCallback (showing h)))"

text \<open>A third \<open>div\<close>, appended to the element and removed again before the observer is called.\<close>

definition third_div :: node where
  "third_div = Node ELEMENT_NODE True 4"

definition append_record :: mutation_record where
  "append_record = \<lparr>addedNodes = [third_div], removedNodes = []\<rparr>"

definition remove_record :: mutation_record where
  "remove_record = \<lparr>addedNodes = [], removedNodes = [third_div]\<rparr>"

definition appended_then_removed :: "mutation_record list" where
  "appended_then_removed = [append_record, remove_record]"

text \<open>
  The showing element after the page has appended its first item to it again
  (\<open>appendChild\<close> of a node that is in the registry) and the observer has
  delivered that addition; and a window over three indices.
\<close>

definition twice_tracked :: "host_env \<Rightarrow> vl_state" where
  "twice_tracked h =
     run [Connected, EngineChanged 0 both_visible 96, LightDomEdited [first_div],
          MutationsDelivered [\<lparr>addedNodes = [first_div], removedNodes = []\<rparr>]]
       (authored h)"

definition three_visible :: "virtual_item list" where
  "three_visible =
     [\<lparr>vi_index = 0, vi_start = 0, vi_size = 24, vi_end = 24\<rparr>,
      \<lparr>vi_index = 1, vi_start = 24, vi_size = 24, vi_end = 48\<rparr>,
      \<lparr>vi_index = 2, vi_start = 48, vi_size = 24, vi_end = 72\<rparr>]"

section \<open>Properties\<close>

subsection \<open>What a step leaves unchanged\<close>

lemma items_setAttribute [simp]: "items (setAttribute n a v s) = items s"
  by (simp add: setAttribute_def)

lemma items_detach [simp]: "items (detach n s) = items s"
  by (simp add: detach_def)

lemma attributesOf_detach [simp]: "attributesOf (detach n s) = attributesOf s"
  by (simp add: detach_def)

lemma items_render_loop [simp]: "items (snd (render_loop window fragment s)) = items s"
  by (induction window arbitrary: fragment s) (auto split: option.splits)

lemma render_loop_keeps [simp]:
  "virtualizer (snd (render_loop window fragment s)) = virtualizer s"
  "virtualizerCleanup (snd (render_loop window fragment s)) = virtualizerCleanup s"
  "scrollElement (snd (render_loop window fragment s)) = scrollElement s"
  "initialized (snd (render_loop window fragment s)) = initialized s"
  "mutationObserver (snd (render_loop window fragment s)) = mutationObserver s"
  "orientation (snd (render_loop window fragment s)) = orientation s"
  "estimateSize (snd (render_loop window fragment s)) = estimateSize s"
  "overscan (snd (render_loop window fragment s)) = overscan s"
  "paddingStart (snd (render_loop window fragment s)) = paddingStart s"
  "paddingEnd (snd (render_loop window fragment s)) = paddingEnd s"
  "scrollPaddingStart (snd (render_loop window fragment s)) = scrollPaddingStart s"
  "scrollPaddingEnd (snd (render_loop window fragment s)) = scrollPaddingEnd s"
  "hostAttributes (snd (render_loop window fragment s)) = hostAttributes s"
  "host (snd (render_loop window fragment s)) = host s"
  "instanceCount (snd (render_loop window fragment s)) = instanceCount s"
  "cleanupCalls (snd (render_loop window fragment s)) = cleanupCalls s"
  "rafId (snd (render_loop window fragment s)) = rafId s"
  "animationFrames (snd (render_loop window fragment s)) = animationFrames s"
  "nextFrameHandle (snd (render_loop window fragment s)) = nextFrameHandle s"
  "microtasks (snd (render_loop window fragment s)) = microtasks s"
  by (induction window arbitrary: fragment s)
    (simp_all add: detach_def setAttribute_def split: option.splits)

lemma render_loop_sizer [simp]:
  "sizerElement (snd (render_loop window fragment s)) = sizerElement s"
  by (induction window arbitrary: fragment s) (auto simp: detach_def setAttribute_def split: option.splits)

lemma render_loop_container:
  "itemsContainer (snd (render_loop window fragment s)) = None \<longleftrightarrow> itemsContainer s = None"
  by (induction window arbitrary: fragment s) (auto simp: detach_def setAttribute_def split: option.splits)

lemma render_tree_items [simp]: "items (render_tree v z s) = items s"
  by (simp add: render_tree_def Let_def)

lemma render_tree_keeps [simp]:
  "virtualizer (render_tree v z s) = virtualizer s"
  "virtualizerCleanup (render_tree v z s) = virtualizerCleanup s"
  "scrollElement (render_tree v z s) = scrollElement s"
  "initialized (render_tree v z s) = initialized s"
  "mutationObserver (render_tree v z s) = mutationObserver s"
  "orientation (render_tree v z s) = orientation s"
  "estimateSize (render_tree v z s) = estimateSize s"
  "overscan (render_tree v z s) = overscan s"
  "paddingStart (render_tree v z s) = paddingStart s"
  "paddingEnd (render_tree v z s) = paddingEnd s"
  "scrollPaddingStart (render_tree v z s) = scrollPaddingStart s"
  "scrollPaddingEnd (render_tree v z s) = scrollPaddingEnd s"
  "hostAttributes (render_tree v z s) = hostAttributes s"
  "host (render_tree v z s) = host s"
  "instanceCount (render_tree v z s) = instanceCount s"
  "cleanupCalls (render_tree v z s) = cleanupCalls s"
  "rafId (render_tree v z s) = rafId s"
  "animationFrames (render_tree v z s) = animationFrames s"
  "nextFrameHandle (render_tree v z s) = nextFrameHandle s"
  "microtasks (render_tree v z s) = microtasks s"
  by (simp_all add: render_tree_def Let_def)

lemma scheduleMeasurement_keeps [simp]:
  "items (state_of (scheduleMeasurement s)) = items s"
  "attributesOf (state_of (scheduleMeasurement s)) = attributesOf s"
  "sizerElement (state_of (scheduleMeasurement s)) = sizerElement s"
  "itemsContainer (state_of (scheduleMeasurement s)) = itemsContainer s"
  "virtualizer (state_of (scheduleMeasurement s)) = virtualizer s"
  "host (state_of (scheduleMeasurement s)) = host s"
  "orientation (state_of (scheduleMeasurement s)) = orientation s"
  "childNodes (state_of (scheduleMeasurement s)) = childNodes s"
  "cleanupCalls (state_of (scheduleMeasurement s)) = cleanupCalls s"
  "virtualizerCleanup (state_of (scheduleMeasurement s)) = virtualizerCleanup s"
  by (simp_all add: scheduleMeasurement_def requestAnimationFrame_def cancelAnimationFrame_def
      split: option.splits)

lemma scheduleMeasurement_keeps_more [simp]:
  "scrollElement (state_of (scheduleMeasurement s)) = scrollElement s"
  "initialized (state_of (scheduleMeasurement s)) = initialized s"
  "mutationObserver (state_of (scheduleMeasurement s)) = mutationObserver s"
  "estimateSize (state_of (scheduleMeasurement s)) = estimateSize s"
  "overscan (state_of (scheduleMeasurement s)) = overscan s"
  "paddingStart (state_of (scheduleMeasurement s)) = paddingStart s"
  "paddingEnd (state_of (scheduleMeasurement s)) = paddingEnd s"
  "scrollPaddingStart (state_of (scheduleMeasurement s)) = scrollPaddingStart s"
  "scrollPaddingEnd (state_of (scheduleMeasurement s)) = scrollPaddingEnd s"
  "hostAttributes (state_of (scheduleMeasurement s)) = hostAttributes s"
  "instanceCount (state_of (scheduleMeasurement s)) = instanceCount s"
  by (simp_all add: scheduleMeasurement_def requestAnimationFrame_def cancelAnimationFrame_def
      split: option.splits)

lemma render_keeps [simp]:
  "virtualizer (state_of (render s)) = virtualizer s"
  "virtualizerCleanup (state_of (render s)) = virtualizerCleanup s"
  "items (state_of (render s)) = items s"
  "scrollElement (state_of (render s)) = scrollElement s"
  "initialized (state_of (render s)) = initialized s"
  "mutationObserver (state_of (render s)) = mutationObserver s"
  "orientation (state_of (render s)) = orientation s"
  "estimateSize (state_of (render s)) = estimateSize s"
  "overscan (state_of (render s)) = overscan s"
  "paddingStart (state_of (render s)) = paddingStart s"
  "paddingEnd (state_of (render s)) = paddingEnd s"
  "scrollPaddingStart (state_of (render s)) = scrollPaddingStart s"
  "scrollPaddingEnd (state_of (render s)) = scrollPaddingEnd s"
  "hostAttributes (state_of (render s)) = hostAttributes s"
  "host (state_of (render s)) = host s"
  "instanceCount (state_of (render s)) = instanceCount s"
  "cleanupCalls (state_of (render s)) = cleanupCalls s"
  by (simp_all add: render_def split: option.splits)

lemma createOptions_render [simp]: "createOptions (state_of (render s)) = createOptions s"
  by (simp add: createOptions_def)

lemma updateVirtualizerOptions_keeps [simp]:
  "virtualizerCleanup (state_of (updateVirtualizerOptions s)) = virtualizerCleanup s"
  "items (state_of (updateVirtualizerOptions s)) = items s"
  "scrollElement (state_of (updateVirtualizerOptions s)) = scrollElement s"
  "initialized (state_of (updateVirtualizerOptions s)) = initialized s"
  "mutationObserver (state_of (updateVirtualizerOptions s)) = mutationObserver s"
  "orientation (state_of (updateVirtualizerOptions s)) = orientation s"
  "estimateSize (state_of (updateVirtualizerOptions s)) = estimateSize s"
  "overscan (state_of (updateVirtualizerOptions s)) = overscan s"
  "paddingStart (state_of (updateVirtualizerOptions s)) = paddingStart s"
  "paddingEnd (state_of (updateVirtualizerOptions s)) = paddingEnd s"
  "scrollPaddingStart (state_of (updateVirtualizerOptions s)) = scrollPaddingStart s"
  "scrollPaddingEnd (state_of (updateVirtualizerOptions s)) = scrollPaddingEnd s"
  "hostAttributes (state_of (updateVirtualizerOptions s)) = hostAttributes s"
  "host (state_of (updateVirtualizerOptions s)) = host s"
  "instanceCount (state_of (updateVirtualizerOptions s)) = instanceCount s"
  "cleanupCalls (state_of (updateVirtualizerOptions s)) = cleanupCalls s"
  by (simp_all add: updateVirtualizerOptions_def pushOptions_def split: option.splits)

lemma createOptions_updateVirtualizerOptions [simp]:
  "createOptions (state_of (updateVirtualizerOptions s)) = createOptions s"
  by (simp add: createOptions_def)

lemma updateVirtualizerOptions_pushes:
  "virtualizer s = Some e \<Longrightarrow>
   virtualizer (state_of (updateVirtualizerOptions s)) = Some
     (e\<lparr>willUpdateCount := Suc (willUpdateCount e),
        options := createOptions s,
        setOptionsCalls := setOptionsCalls e @ [createOptions s],
        measureCount := Suc (measureCount e)\<rparr>)"
  by (simp add: updateVirtualizerOptions_def pushOptions_def)

lemma applyAttribute_virtualizer [simp]:
  "virtualizer (applyAttribute name newValue s) = virtualizer s"
  by (simp add: applyAttribute_def Let_def)

lemma applyAttribute_scheduling [simp]:
  "host (applyAttribute name newValue s) = host s"
  "animationFrames (applyAttribute name newValue s) = animationFrames s"
  "rafId (applyAttribute name newValue s) = rafId s"
  "microtasks (applyAttribute name newValue s) = microtasks s"
  "nextFrameHandle (applyAttribute name newValue s) = nextFrameHandle s"
  by (simp_all add: applyAttribute_def Let_def)

lemma teardownVirtualizer_releases [simp]:
  "virtualizer (teardownVirtualizer s) = None"
  "virtualizerCleanup (teardownVirtualizer s) = None"
  by (simp_all add: teardownVirtualizer_def Let_def split: option.splits)

subsection \<open>The examples, evaluated\<close>

lemmas element_defs =
  connectedCallback_def initialize_def captureChildren_def removeChild_def withoutChild_def
  hasAttribute_def setAttribute_def setupShadowDom_def applyInitialAttributes_def
  NUMBER_ATTRIBUTES_def startObservingLightDom_def mountVirtualizer_def newVirtualizer_def
  createOptions_def render_def render_tree_def firstStart_def detach_def item_at_def
  scheduleMeasurement_def requestAnimationFrame_def cancelAnimationFrame_def
  setVirtualState_def onChange_def DEFAULT_ESTIMATE_def DEFAULT_OVERSCAN_def created_def

lemmas example_defs =
  authored_def connected_def showing_def both_visible_def first_div_def text_node_def
  second_div_def browser_def frameless_def

lemma connected_browser:
  "connected browser =
     \<lparr>virtualizer = Some \<lparr>instance_id = 0,
         options = \<lparr>opt_count = 2, opt_overscan = 2, opt_horizontal = False, opt_paddingStart = 0,
                    opt_paddingEnd = 0, opt_scrollPaddingStart = 0, opt_scrollPaddingEnd = 0\<rparr>,
         setOptionsCalls = [], willUpdateCount = 1, measureCount = 0, measureElementCalls = [],
         virtualItems = [], totalSize = 0\<rparr>,
      virtualizerCleanup = Some 0, items = [first_div, second_div], scrollElement = True,
      sizerElement = Some \<lparr>style_width = Some (Percent 100), style_height = Some (Px 0)\<rparr>,
      itemsContainer = Some \<lparr>children = [], style_transform = Some (Translate3d Zero (Px 0) Zero)\<rparr>,
      initialized = True, mutationObserver = Some (Observer True), orientation = Vertical,
      estimateSize = 48, overscan = 2, paddingStart = 0, paddingEnd = 0,
      scrollPaddingStart = 0, scrollPaddingEnd = 0, rafId = Some 1,
      hostAttributes = [''role'' \<mapsto> ''list''], childNodes = [],
      attributesOf = ((\<lambda>n. Map.empty)(first_div := [''id'' \<mapsto> ''first'']))
         (first_div := [''id'' \<mapsto> ''first'', ''role'' \<mapsto> ''listitem''],
          second_div := [''role'' \<mapsto> ''listitem'']),
      host = browser, animationFrames = [1], nextFrameHandle = 2, microtasks = 0,
      instanceCount = 1, cleanupCalls = []\<rparr>"
  by (simp add: example_defs element_defs)

lemma showing_browser:
  "showing browser =
     \<lparr>virtualizer = Some \<lparr>instance_id = 0,
         options = \<lparr>opt_count = 2, opt_overscan = 2, opt_horizontal = False, opt_paddingStart = 0,
                    opt_paddingEnd = 0, opt_scrollPaddingStart = 0, opt_scrollPaddingEnd = 0\<rparr>,
         setOptionsCalls = [], willUpdateCount = 1, measureCount = 0, measureElementCalls = [],
         virtualItems = both_visible, totalSize = 96\<rparr>,
      virtualizerCleanup = Some 0, items = [first_div, second_div], scrollElement = True,
      sizerElement = Some \<lparr>style_width = Some (Percent 100), style_height = Some (Px 96)\<rparr>,
      itemsContainer = Some \<lparr>children = [first_div, second_div],
                              style_transform = Some (Translate3d Zero (Px 12) Zero)\<rparr>,
      initialized = True, mutationObserver = Some (Observer True), orientation = Vertical,
      estimateSize = 48, overscan = 2, paddingStart = 0, paddingEnd = 0,
      scrollPaddingStart = 0, scrollPaddingEnd = 0, rafId = Some 2,
      hostAttributes = [''role'' \<mapsto> ''list''], childNodes = [],
      attributesOf = (\<lambda>n. Map.empty)
         (first_div := [''id'' \<mapsto> ''first'', ''role'' \<mapsto> ''listitem'',
                        ''aria-setsize'' \<mapsto> ''2'', ''aria-posinset'' \<mapsto> ''1''],
          second_div := [''role'' \<mapsto> ''listitem'', ''aria-setsize'' \<mapsto> ''2'',
                         ''aria-posinset'' \<mapsto> ''2'']),
      host = browser, animationFrames = [2], nextFrameHandle = 3, microtasks = 0,
      instanceCount = 1, cleanupCalls = []\<rparr>"
  unfolding showing_def connected_browser
  by (simp add: example_defs element_defs String_int_def digit_char_def fun_upd_twist)

lemma connected_frameless_pending: "pendingMeasurements (connected frameless) = 1"
  by (simp add: pendingMeasurements_def example_defs element_defs)

subsection \<open>Capturing the light DOM\<close>

lemma captureChildren_loop_result:
  "childNodes s = nodes \<Longrightarrow>
   captureChildren_loop nodes captured s =
     Returned (s\<lparr>items := captured @ filter (\<lambda>n. nodeType n = ELEMENT_NODE) nodes,
                 childNodes := [],
                 attributesOf := (\<lambda>n. if n \<in> set nodes \<and> nodeType n = ELEMENT_NODE
                                           \<and> attributesOf s n ''role'' = None
                                        then (attributesOf s n)(''role'' \<mapsto> ''listitem'')
                                        else attributesOf s n)\<rparr>)"
proof (induction nodes arbitrary: captured s)
  case Nil
  then show ?case by simp
next
  case (Cons n nodes)
  show ?case
  proof (cases "nodeType n = ELEMENT_NODE")
    case False
    let ?s1 = "withoutChild n s"
    have step: "captureChildren_loop (n # nodes) captured s = captureChildren_loop nodes captured ?s1"
      using False Cons.prems by (simp add: removeChild_def)
    have kids: "childNodes ?s1 = nodes"
      using Cons.prems by (simp add: withoutChild_def)
    have same: "(\<lambda>m. if m \<in> set nodes \<and> nodeType m = ELEMENT_NODE \<and> attributesOf ?s1 m ''role'' = None
                      then (attributesOf ?s1 m)(''role'' \<mapsto> ''listitem'') else attributesOf ?s1 m)
              = (\<lambda>m. if m \<in> set (n # nodes) \<and> nodeType m = ELEMENT_NODE \<and> attributesOf s m ''role'' = None
                      then (attributesOf s m)(''role'' \<mapsto> ''listitem'') else attributesOf s m)"
      using False by (auto simp: withoutChild_def fun_eq_iff)
    show ?thesis
      unfolding step Cons.IH [OF kids] same
      using False by (simp add: withoutChild_def)
  next
    case True
    let ?s0 = "if hasAttribute s n ''role'' then s else setAttribute n ''role'' ''listitem'' s"
    let ?s1 = "withoutChild n ?s0"
    have kids0: "childNodes ?s0 = n # nodes"
      using Cons.prems by (simp add: setAttribute_def)
    have step: "captureChildren_loop (n # nodes) captured s
                  = captureChildren_loop nodes (captured @ [n]) ?s1"
      using True kids0 by (simp add: removeChild_def)
    have kids: "childNodes ?s1 = nodes"
      using kids0 by (simp add: withoutChild_def)
    have same: "(\<lambda>m. if m \<in> set nodes \<and> nodeType m = ELEMENT_NODE \<and> attributesOf ?s1 m ''role'' = None
                      then (attributesOf ?s1 m)(''role'' \<mapsto> ''listitem'') else attributesOf ?s1 m)
              = (\<lambda>m. if m \<in> set (n # nodes) \<and> nodeType m = ELEMENT_NODE \<and> attributesOf s m ''role'' = None
                      then (attributesOf s m)(''role'' \<mapsto> ''listitem'') else attributesOf s m)"
      using True by (auto simp: withoutChild_def setAttribute_def hasAttribute_def fun_eq_iff)
    show ?thesis
      unfolding step Cons.IH [OF kids] same
      using True by (simp add: withoutChild_def setAttribute_def)
  qed
qed

lemma captureChildren_result:
  "captureChildren s =
     Returned (s\<lparr>items := filter (\<lambda>n. nodeType n = ELEMENT_NODE) (childNodes s),
                 childNodes := [],
                 attributesOf := (\<lambda>n. if n \<in> set (childNodes s) \<and> nodeType n = ELEMENT_NODE
                                           \<and> attributesOf s n ''role'' = None
                                        then (attributesOf s n)(''role'' \<mapsto> ''listitem'')
                                        else attributesOf s n)\<rparr>)"
  using captureChildren_loop_result [of s "childNodes s" "[]"]
  by (simp add: captureChildren_def)

lemma render_loop_no_children:
  "childNodes s = [] \<Longrightarrow> childNodes (snd (render_loop window fragment s)) = []"
  by (induction window arbitrary: fragment s)
    (simp_all add: detach_def setAttribute_def split: option.splits)

lemma render_no_children:
  "childNodes s = [] \<Longrightarrow> childNodes (state_of (render s)) = []"
  by (simp add: render_def render_tree_def Let_def render_loop_no_children split: option.splits)

lemma updateVirtualizerOptions_no_children:
  "childNodes s = [] \<Longrightarrow> childNodes (state_of (updateVirtualizerOptions s)) = []"
  by (simp add: updateVirtualizerOptions_def pushOptions_def render_no_children split: option.splits)

lemma applyAttribute_light_dom [simp]:
  "items (applyAttribute name newValue s) = items s"
  "childNodes (applyAttribute name newValue s) = childNodes s"
  by (simp_all add: applyAttribute_def Let_def)

lemma attributeChangedCallback_light_dom:
  "items (state_of (attributeChangedCallback name oldValue newValue s)) = items s
   \<and> (childNodes s = [] \<longrightarrow>
        childNodes (state_of (attributeChangedCallback name oldValue newValue s)) = [])"
  by (simp add: attributeChangedCallback_def updateVirtualizerOptions_no_children)

lemma applyInitialAttributes_loop_light_dom:
  "items (state_of (applyInitialAttributes_loop names s)) = items s
   \<and> (childNodes s = [] \<longrightarrow> childNodes (state_of (applyInitialAttributes_loop names s)) = [])"
proof (induction names arbitrary: s)
  case Nil
  then show ?case by simp
next
  case (Cons name names)
  show ?case
  proof (cases "hostAttributes s name")
    case None
    with Cons show ?thesis by simp
  next
    case (Some v)
    show ?thesis
    proof (cases "attributeChangedCallback name None (Some v) s")
      case (Returned s1)
      with attributeChangedCallback_light_dom [of name None "Some v" s]
      have "items s1 = items s" "childNodes s = [] \<longrightarrow> childNodes s1 = []"
        by simp_all
      with Cons.IH [of s1] Some Returned show ?thesis by simp
    next
      case (Threw e s1)
      with attributeChangedCallback_light_dom [of name None "Some v" s] Some show ?thesis
        by simp
    qed
  qed
qed

lemma mountVirtualizer_light_dom:
  "items (state_of (mountVirtualizer s)) = items s"
  "childNodes s = [] \<Longrightarrow> childNodes (state_of (mountVirtualizer s)) = []"
  by (simp_all add: mountVirtualizer_def pushOptions_def Let_def render_no_children
      split: option.splits)

lemma first_activation_captures:
  assumes "\<not> initialized s"
  shows "items (state_of (connectedCallback s)) = filter (\<lambda>n. nodeType n = ELEMENT_NODE) (childNodes s)
       \<and> childNodes (state_of (connectedCallback s)) = []"
proof -
  let ?s2 = "if hostAttributes (s\<lparr>initialized := True\<rparr>) ''role'' = None
             then s\<lparr>initialized := True\<rparr>\<lparr>hostAttributes := (hostAttributes (s\<lparr>initialized := True\<rparr>))(''role'' \<mapsto> ''list'')\<rparr>
             else s\<lparr>initialized := True\<rparr>"
  obtain s3 where captured: "captureChildren ?s2 = Returned s3"
    and registry: "items s3 = filter (\<lambda>n. nodeType n = ELEMENT_NODE) (childNodes s)"
    and emptied: "childNodes s3 = []"
    by (simp add: captureChildren_result)
  have shadow: "items (setupShadowDom s3) = items s3" "childNodes (setupShadowDom s3) = []"
    using emptied by (simp_all add: setupShadowDom_def)
  let ?c = "applyInitialAttributes (setupShadowDom s3)"
  have applied: "items (state_of ?c) = items s3" "childNodes (state_of ?c) = []"
    using applyInitialAttributes_loop_light_dom shadow
    by (simp_all add: applyInitialAttributes_def)
  have "items (state_of (initialize s)) = items s3 \<and> childNodes (state_of (initialize s)) = []"
  proof (cases ?c)
    case (Returned s4)
    with applied have "items (startObservingLightDom s4) = items s3"
      "childNodes (startObservingLightDom s4) = []"
      by (simp_all add: startObservingLightDom_def)
    with captured Returned show ?thesis
      by (simp add: initialize_def Let_def mountVirtualizer_light_dom)
  next
    case (Threw e s4)
    with applied captured show ?thesis
      by (simp add: initialize_def Let_def)
  qed
  with registry assms show ?thesis
    by (simp add: connectedCallback_def)
qed

text \<open>
  Claim C5.  Capturing returns (it raises nothing) and leaves the registry equal
  to the element children of the light DOM in document order; no child of
  another node type is in the registry; the element has no child nodes left;
  every captured element carries the role it had, or \<open>listitem\<close> if it had
  none, and its other attributes are as before.  The first activation of an
  element (\<open>connectedCallback\<close> before it is initialised) ends with that
  registry and with no child nodes.
\<close>

theorem captureChildren_captures:
  "\<exists>s'. captureChildren s = Returned s'
     \<and> items s' = filter (\<lambda>n. nodeType n = ELEMENT_NODE) (childNodes s)
     \<and> childNodes s' = []
     \<and> (\<forall>n \<in> set (childNodes s). nodeType n \<noteq> ELEMENT_NODE \<longrightarrow> n \<notin> set (items s'))
     \<and> (\<forall>n \<in> set (items s').
           attributesOf s' n ''role''
             = Some (case attributesOf s n ''role'' of None \<Rightarrow> ''listitem'' | Some r \<Rightarrow> r)
         \<and> (\<forall>name. name \<noteq> ''role'' \<longrightarrow> attributesOf s' n name = attributesOf s n name))
     \<and> (\<not> initialized s \<longrightarrow>
           items (state_of (connectedCallback s))
             = filter (\<lambda>n. nodeType n = ELEMENT_NODE) (childNodes s)
         \<and> childNodes (state_of (connectedCallback s)) = [])"
proof -
  let ?s' = "s\<lparr>items := [] @ filter (\<lambda>n. nodeType n = ELEMENT_NODE) (childNodes s),
                 childNodes := [],
                 attributesOf := (\<lambda>n. if n \<in> set (childNodes s) \<and> nodeType n = ELEMENT_NODE
                                           \<and> attributesOf s n ''role'' = None
                                        then (attributesOf s n)(''role'' \<mapsto> ''listitem'')
                                        else attributesOf s n)\<rparr>"
  have "captureChildren s = Returned ?s'"
    unfolding captureChildren_def by (rule captureChildren_loop_result) simp
  moreover have "items ?s' = filter (\<lambda>n. nodeType n = ELEMENT_NODE) (childNodes s)"
    and "childNodes ?s' = []"
    by simp_all
  moreover have "\<forall>n \<in> set (childNodes s). nodeType n \<noteq> ELEMENT_NODE \<longrightarrow> n \<notin> set (items ?s')"
    by simp
  moreover have "\<forall>n \<in> set (items ?s').
           attributesOf ?s' n ''role''
             = Some (case attributesOf s n ''role'' of None \<Rightarrow> ''listitem'' | Some r \<Rightarrow> r)
         \<and> (\<forall>name. name \<noteq> ''role'' \<longrightarrow> attributesOf ?s' n name = attributesOf s n name)"
    by (auto split: option.splits)
  ultimately show ?thesis
    using first_activation_captures [of s] by blast
qed

theorem captureChildren_captures_witness:
  "childNodes (authored browser) = [first_div, text_node, second_div]
   \<and> items (state_of (captureChildren (authored browser))) = [first_div, second_div]
   \<and> childNodes (state_of (captureChildren (authored browser))) = []
   \<and> attributesOf (authored browser) second_div ''role'' = None
   \<and> attributesOf (state_of (captureChildren (authored browser))) second_div ''role'' = Some ''listitem''
   \<and> returned (captureChildren (authored browser))
   \<and> items (state_of (connectedCallback (authored browser))) = [first_div, second_div]
   \<and> childNodes (state_of (connectedCallback (authored browser))) = []"
proof -
  have kids: "childNodes (authored browser) = [first_div, text_node, second_div]"
    and bare: "attributesOf (authored browser) second_div ''role'' = None"
    and fresh: "\<not> initialized (authored browser)"
    by (simp_all add: authored_def created_def first_div_def second_div_def)
  have types: "nodeType first_div = ELEMENT_NODE" "nodeType text_node \<noteq> ELEMENT_NODE"
    "nodeType second_div = ELEMENT_NODE"
    by (simp_all add: first_div_def text_node_def second_div_def)
  from captureChildren_captures [of "authored browser"] kids bare fresh types show ?thesis
    by auto
qed

subsection \<open>Reconciling a batch of mutations\<close>

lemma addedNodes_forEach_effect:
  "additions (addedNodes_forEach nodes r)
     = additions r @ filter (\<lambda>n. nodeType n = ELEMENT_NODE) nodes"
  "items (element_state (addedNodes_forEach nodes r)) = items (element_state r)"
  by (induction nodes arbitrary: r) (simp_all add: withoutChild_def)

lemma removedNodes_forEach_effect:
  "additions (removedNodes_forEach nodes r) = additions r"
  "items (element_state (removedNodes_forEach nodes r))
     = foldl (\<lambda>xs n. remove1 n xs) (items (element_state r))
         (filter (\<lambda>n. nodeType n = ELEMENT_NODE) nodes)"
  by (induction nodes arbitrary: r) (simp_all add: remove1_idem)

lemma mutations_loop_effect:
  "additions (mutations_loop mutations r) = additions r @ added_elements mutations"
  "items (element_state (mutations_loop mutations r))
     = foldl (\<lambda>xs n. remove1 n xs) (items (element_state r)) (removed_elements mutations)"
  by (induction mutations arbitrary: r)
    (simp_all add: added_elements_def removed_elements_def addedNodes_forEach_effect
      removedNodes_forEach_effect)

lemma additions_loop_items: "items (additions_loop elements s) = items s @ elements"
  by (induction elements arbitrary: s) (simp_all add: Let_def withoutChild_def setAttribute_def)

lemma handleLightDomMutations_items:
  "items (state_of (handleLightDomMutations mutations s))
     = foldl (\<lambda>xs n. remove1 n xs) (items s) (removed_elements mutations) @ added_elements mutations"
  by (simp add: handleLightDomMutations_def Let_def mutations_loop_effect additions_loop_items)

lemma addedNodes_forEach_virtualizer [simp]:
  "virtualizer (element_state (addedNodes_forEach nodes r)) = virtualizer (element_state r)"
  by (induction nodes arbitrary: r) (simp_all add: withoutChild_def)

lemma removedNodes_forEach_virtualizer [simp]:
  "virtualizer (element_state (removedNodes_forEach nodes r)) = virtualizer (element_state r)"
  by (induction nodes arbitrary: r) simp_all

lemma mutations_loop_virtualizer [simp]:
  "virtualizer (element_state (mutations_loop mutations r)) = virtualizer (element_state r)"
  by (induction mutations arbitrary: r) simp_all

lemma additions_loop_virtualizer [simp]:
  "virtualizer (additions_loop elements s) = virtualizer s"
  by (induction elements arbitrary: s) (simp_all add: Let_def withoutChild_def setAttribute_def)

lemma handleLightDomMutations_pushes:
  assumes "virtualizer s = Some e" and "added_elements mutations \<noteq> []"
  shows "\<exists>e'. virtualizer (state_of (handleLightDomMutations mutations s)) = Some e'
     \<and> options e' = createOptions (state_of (handleLightDomMutations mutations s))"
proof -
  let ?r = "mutations_loop mutations \<lparr>additions = [], changed = False, element_state = s\<rparr>"
  let ?s1 = "additions_loop (additions ?r) (element_state ?r)"
  have call: "handleLightDomMutations mutations s = updateVirtualizerOptions ?s1"
    using assms(2) by (simp add: handleLightDomMutations_def Let_def mutations_loop_effect)
  have "virtualizer ?s1 = Some e"
    using assms(1) by simp
  from updateVirtualizerOptions_pushes [OF this] show ?thesis
    by (simp add: call)
qed

text \<open>
  Claim C2, on the code.  The third \<open>div\<close> is reported as added and then as
  removed in one batch, as when the page appends it to the element and removes
  it again before the observer is called.  It is no child of the element, yet
  after the batch it is in the registry, and the options pushed to the engine
  count three items.  Delivered as two batches, the same two records leave the
  registry as it was before them.
\<close>

theorem add_then_remove_in_one_batch:
  "third_div \<in> set (added_elements appended_then_removed)
   \<and> third_div \<in> set (removed_elements appended_then_removed)
   \<and> items (showing browser) = [first_div, second_div]
   \<and> childNodes (showing browser) = []
   \<and> items (state_of (handleLightDomMutations appended_then_removed (showing browser)))
       = [first_div, second_div, third_div]
   \<and> map_option (\<lambda>e. opt_count (options e))
         (virtualizer (state_of (handleLightDomMutations appended_then_removed (showing browser))))
       = Some 3
   \<and> items (state_of (handleLightDomMutations [remove_record]
         (state_of (handleLightDomMutations [append_record] (showing browser)))))
       = [first_div, second_div]"
proof -
  have batch: "added_elements appended_then_removed = [third_div]"
    "removed_elements appended_then_removed = [third_div]"
    by (simp_all add: added_elements_def removed_elements_def appended_then_removed_def
        append_record_def remove_record_def third_div_def)
  have before: "items (showing browser) = [first_div, second_div]" "childNodes (showing browser) = []"
    by (simp_all add: showing_browser)
  have one: "items (state_of (handleLightDomMutations appended_then_removed (showing browser)))
      = [first_div, second_div, third_div]"
    by (simp add: handleLightDomMutations_items batch before first_div_def second_div_def
        third_div_def)
  have engine: "virtualizer (showing browser) \<noteq> None"
    and added: "added_elements appended_then_removed \<noteq> []"
    by (simp_all add: showing_browser batch)
  then obtain e where "virtualizer (state_of (handleLightDomMutations appended_then_removed (showing browser)))
      = Some e"
    and "options e = createOptions (state_of (handleLightDomMutations appended_then_removed (showing browser)))"
    using handleLightDomMutations_pushes [of "showing browser" _ appended_then_removed] by auto
  with one have count: "map_option (\<lambda>e. opt_count (options e))
         (virtualizer (state_of (handleLightDomMutations appended_then_removed (showing browser))))
       = Some 3"
    by (simp add: createOptions_def)
  have two: "items (state_of (handleLightDomMutations [remove_record]
         (state_of (handleLightDomMutations [append_record] (showing browser)))))
       = [first_div, second_div]"
    by (simp add: handleLightDomMutations_items added_elements_def removed_elements_def
        append_record_def remove_record_def before first_div_def second_div_def third_div_def)
  from batch before one count two show ?thesis
    by simp
qed

subsection \<open>Item keys\<close>

lemma getItemKey_of_item:
  "item_at (items s) index = Some item \<Longrightarrow> getItemKey s index = KeyString (id_of (attributesOf s item))"
  by (simp add: getItemKey_def)

lemma getItemKey_without_item:
  "item_at (items s) index = None \<Longrightarrow> getItemKey s index = KeyNumber index"
  by (simp add: getItemKey_def)

text \<open>
  Claim C3, on the code: for a registry item the key is the item's \<open>id\<close>
  property, a string, also when the item has no \<open>id\<close> attribute (the empty
  string then); the index is the key only where the registry has no item.  In
  the connected example the second item has no \<open>id\<close> attribute and its key is
  the empty string, not its index 1.
\<close>

theorem getItemKey_of_item_without_id:
  "item_at (items (connected browser)) 1 = Some second_div
   \<and> attributesOf (connected browser) second_div ''id'' = None
   \<and> getItemKey (connected browser) 1 = KeyString []
   \<and> getItemKey (connected browser) 0 = KeyString ''first''"
  by (simp add: connected_browser getItemKey_def item_at_def id_of_def first_div_def second_div_def)

subsection \<open>Attribute changes\<close>

text \<open>
  Claim C9.  A change notification whose old value is identical to its new value
  returns at once and leaves the whole state as it was: the engine instance
  records no \<open>_willUpdate\<close>, \<open>setOptions\<close> or \<open>measure\<close> call, nothing is
  rendered and nothing is scheduled.
\<close>

theorem unchanged_attribute_is_ignored:
  "attributeChangedCallback name v v s = Returned s"
  by (simp add: attributeChangedCallback_def)

text \<open>
  Claim C6.  When a numeric attribute changes to a string that \<open>Number\<close> does
  not convert to a finite number, the value in effect becomes the attribute's
  default: 48 for \<open>estimate-size\<close>, 2 for \<open>overscan\<close>, 0 for the four
  paddings.  When \<open>overscan\<close> changes to a string that converts to a negative
  number, the overscan in effect becomes 0.  If the element has an engine
  instance, the options the instance holds afterwards are those of the new
  state.
\<close>

theorem invalid_number_falls_back:
  assumes "oldValue \<noteq> Some v"
  shows "(\<not> isFinite (Number_of (host s) v) \<longrightarrow>
            estimateSize (state_of (attributeChangedCallback ''estimate-size'' oldValue (Some v) s)) = 48
          \<and> overscan (state_of (attributeChangedCallback ''overscan'' oldValue (Some v) s)) = 2
          \<and> paddingStart (state_of (attributeChangedCallback ''padding-start'' oldValue (Some v) s)) = 0
          \<and> paddingEnd (state_of (attributeChangedCallback ''padding-end'' oldValue (Some v) s)) = 0
          \<and> scrollPaddingStart
               (state_of (attributeChangedCallback ''scroll-padding-start'' oldValue (Some v) s)) = 0
          \<and> scrollPaddingEnd
               (state_of (attributeChangedCallback ''scroll-padding-end'' oldValue (Some v) s)) = 0)
       \<and> (\<forall>q. Number_of (host s) v = Fin q \<and> q < 0 \<longrightarrow>
            overscan (state_of (attributeChangedCallback ''overscan'' oldValue (Some v) s)) = 0)
       \<and> (\<forall>name e. virtualizer s = Some e \<longrightarrow>
            (\<exists>e'. virtualizer (state_of (attributeChangedCallback name oldValue (Some v) s)) = Some e'
                \<and> options e' = createOptions (state_of (attributeChangedCallback name oldValue (Some v) s))))"
proof -
  have call: "state_of (attributeChangedCallback name oldValue (Some v) s)
      = state_of (updateVirtualizerOptions (applyAttribute name (Some v) s))" for name
    using assms by (simp add: attributeChangedCallback_def)
  have invalid: "(case Number_of (host s) v of Fin q \<Rightarrow> q | _ \<Rightarrow> d) = d"
    if "\<not> isFinite (Number_of (host s) v)" for d :: rat
    using that by (cases "Number_of (host s) v") simp_all
  have fallbacks:
    "estimateSize (applyAttribute ''estimate-size'' (Some v) s) = 48"
    "overscan (applyAttribute ''overscan'' (Some v) s) = 2"
    "paddingStart (applyAttribute ''padding-start'' (Some v) s) = 0"
    "paddingEnd (applyAttribute ''padding-end'' (Some v) s) = 0"
    "scrollPaddingStart (applyAttribute ''scroll-padding-start'' (Some v) s) = 0"
    "scrollPaddingEnd (applyAttribute ''scroll-padding-end'' (Some v) s) = 0"
    if "\<not> isFinite (Number_of (host s) v)"
    using invalid [OF that]
    by (simp_all add: applyAttribute_def NUMBER_ATTRIBUTES_def fallbackForAttribute_def
        DEFAULT_ESTIMATE_def DEFAULT_OVERSCAN_def Let_def)
  have negative: "overscan (applyAttribute ''overscan'' (Some v) s) = 0"
    if "Number_of (host s) v = Fin q" "q < 0" for q
  proof -
    have "\<lfloor>q\<rfloor> \<le> 0" using that(2) by (simp add: floor_le_zero le_less)
    with that(1) show ?thesis
      by (simp add: applyAttribute_def NUMBER_ATTRIBUTES_def Let_def)
  qed
  have pushed: "\<exists>e'. virtualizer (state_of (attributeChangedCallback name oldValue (Some v) s)) = Some e'
      \<and> options e' = createOptions (state_of (attributeChangedCallback name oldValue (Some v) s))"
    if "virtualizer s = Some e" for name e
  proof -
    have "virtualizer (applyAttribute name (Some v) s) = Some e"
      using that by simp
    from updateVirtualizerOptions_pushes [OF this] show ?thesis
      by (simp add: call)
  qed
  from fallbacks negative pushed show ?thesis
    by (simp add: call)
qed

theorem invalid_number_falls_back_witness:
  "Number_of (host (showing browser)) ''foo'' = NaN
   \<and> Number_of (host (showing browser)) ''-5'' = Fin (- 5)
   \<and> estimateSize (state_of (attributeChangedCallback ''estimate-size'' (Some ''64'') (Some ''foo'') (showing browser))) = 48
   \<and> overscan (state_of (attributeChangedCallback ''overscan'' (Some ''3'') (Some ''foo'') (showing browser))) = 2
   \<and> overscan (state_of (attributeChangedCallback ''overscan'' (Some ''3'') (Some ''-5'') (showing browser))) = 0
   \<and> map_option (\<lambda>e. opt_overscan (options e))
        (virtualizer (state_of (attributeChangedCallback ''overscan'' (Some ''3'') (Some ''-5'') (showing browser))))
       = Some 0"
proof -
  have "host (showing browser) = browser"
    by (simp add: showing_browser)
  then have foo: "Number_of (host (showing browser)) ''foo'' = NaN"
    and minus: "Number_of (host (showing browser)) ''-5'' = Fin (- 5)"
    by (simp_all add: browser_def decimal_Number_def digit_value_def)
  have engine: "virtualizer (showing browser) \<noteq> None"
    by (simp add: showing_browser)
  have changed: "Some ''64'' \<noteq> Some ''foo''" "Some ''3'' \<noteq> Some ''foo''" "Some ''3'' \<noteq> Some ''-5''"
    by simp_all
  note first = invalid_number_falls_back [OF changed(1), of "showing browser"]
  note second = invalid_number_falls_back [OF changed(2), of "showing browser"]
  note third = invalid_number_falls_back [OF changed(3), of "showing browser"]
  from first foo have estimate: "estimateSize (state_of
      (attributeChangedCallback ''estimate-size'' (Some ''64'') (Some ''foo'') (showing browser))) = 48"
    by simp
  from second foo have default: "overscan (state_of
      (attributeChangedCallback ''overscan'' (Some ''3'') (Some ''foo'') (showing browser))) = 2"
    by simp
  from third minus have clamped: "overscan (state_of
      (attributeChangedCallback ''overscan'' (Some ''3'') (Some ''-5'') (showing browser))) = 0"
    by simp
  from third engine obtain e' where
    "virtualizer (state_of (attributeChangedCallback ''overscan'' (Some ''3'') (Some ''-5'') (showing browser)))
       = Some e'"
    "options e' = createOptions (state_of
       (attributeChangedCallback ''overscan'' (Some ''3'') (Some ''-5'') (showing browser)))"
    by blast
  with clamped have "map_option (\<lambda>e. opt_overscan (options e))
        (virtualizer (state_of (attributeChangedCallback ''overscan'' (Some ''3'') (Some ''-5'') (showing browser))))
       = Some 0"
    by (simp add: createOptions_def)
  with foo minus estimate default clamped show ?thesis
    by simp
qed

subsection \<open>Render passes\<close>

lemma insert_remove1: "insert x (set (remove1 x xs)) = insert x (set xs)"
  by (induction xs) auto

lemma render_loop_fragment:
  "set (fst (render_loop window fragment s))
     = set fragment \<union> {e. \<exists>u \<in> set window. item_at (items s) (vi_index u) = Some e}"
proof (induction window arbitrary: fragment s)
  case Nil
  then show ?case by simp
next
  case (Cons u window)
  show ?case
  proof (cases "item_at (items s) (vi_index u)")
    case None
    with Cons show ?thesis by auto
  next
    case (Some x)
    have "set (remove1 x fragment @ [x]) = insert x (set fragment)"
      using insert_remove1 [of x fragment] by simp
    with Some Cons show ?thesis by auto
  qed
qed

lemma render_tree_sizer:
  "sizerElement (render_tree v z s) = Some
     (if orientation s = Horizontal
      then z\<lparr>style_width := Some (Px (totalSize v)), style_height := Some (Percent 100)\<rparr>
      else z\<lparr>style_height := Some (Px (totalSize v)), style_width := Some (Percent 100)\<rparr>)"
  by (simp add: render_tree_def Let_def)

lemma render_tree_container:
  assumes "itemsContainer s = Some c"
  shows "\<exists>c'. itemsContainer (render_tree v z s) = Some c'
     \<and> set (children c') = {e. \<exists>u \<in> set (virtualItems v). item_at (items s) (vi_index u) = Some e}
     \<and> style_transform c' = Some
          (if orientation s = Horizontal
           then Translate3d (Px (firstStart (virtualItems v))) Zero Zero
           else Translate3d Zero (Px (firstStart (virtualItems v))) Zero)"
proof -
  let ?s1 = "s\<lparr>sizerElement := Some
                 (if orientation s = Horizontal
                  then z\<lparr>style_width := Some (Px (totalSize v)), style_height := Some (Percent 100)\<rparr>
                  else z\<lparr>style_height := Some (Px (totalSize v)), style_width := Some (Percent 100)\<rparr>)\<rparr>"
  have "itemsContainer (snd (render_loop (virtualItems v) [] ?s1)) \<noteq> None"
    using assms by (simp add: render_loop_container)
  then obtain c1 where c1: "itemsContainer (snd (render_loop (virtualItems v) [] ?s1)) = Some c1"
    by auto
  have "set (fst (render_loop (virtualItems v) [] ?s1))
      = {e. \<exists>u \<in> set (virtualItems v). item_at (items s) (vi_index u) = Some e}"
    by (simp add: render_loop_fragment)
  with c1 show ?thesis
    by (simp add: render_tree_def Let_def)
qed

lemma render_loop_untouched:
  "\<forall>u \<in> set window. item_at (items s) (vi_index u) \<noteq> Some e \<Longrightarrow>
   attributesOf (snd (render_loop window fragment s)) e = attributesOf s e"
proof (induction window arbitrary: fragment s)
  case Nil
  then show ?case by simp
next
  case (Cons u window)
  show ?case
  proof (cases "item_at (items s) (vi_index u)")
    case None
    with Cons show ?thesis by simp
  next
    case (Some x)
    with Cons.prems have "x \<noteq> e" by auto
    with Some Cons show ?thesis by (simp add: setAttribute_def)
  qed
qed

lemma render_loop_setsize:
  assumes "\<exists>u \<in> set window. item_at (items s) (vi_index u) = Some e"
  shows "attributesOf (snd (render_loop window fragment s)) e ''aria-setsize''
           = Some (String_nat (length (items s)))"
  using assms
proof (induction window arbitrary: fragment s)
  case Nil
  then show ?case by simp
next
  case (Cons u window)
  show ?case
  proof (cases "\<exists>w \<in> set window. item_at (items s) (vi_index w) = Some e")
    case True
    show ?thesis
    proof (cases "item_at (items s) (vi_index u)")
      case None
      with True Cons show ?thesis by simp
    next
      case (Some x)
      let ?s1 = "detach x (setAttribute x ''aria-posinset'' (String_int (vi_index u + 1))
                (setAttribute x ''aria-setsize'' (String_nat (length (items s))) s))"
      have "attributesOf (snd (render_loop window (remove1 x fragment @ [x]) ?s1)) e ''aria-setsize''
              = Some (String_nat (length (items ?s1)))"
        using True by (intro Cons.IH) simp
      with Some show ?thesis by simp
    qed
  next
    case False
    with Cons.prems have here: "item_at (items s) (vi_index u) = Some e"
      by auto
    let ?s1 = "detach e (setAttribute e ''aria-posinset'' (String_int (vi_index u + 1))
                (setAttribute e ''aria-setsize'' (String_nat (length (items s))) s))"
    have "attributesOf (snd (render_loop window (remove1 e fragment @ [e]) ?s1)) e = attributesOf ?s1 e"
      using False by (intro render_loop_untouched) simp
    with here show ?thesis by (simp add: setAttribute_def)
  qed
qed

lemma render_loop_stamped:
  assumes "\<exists>u \<in> set window. item_at (items s) (vi_index u) = Some e"
    and "\<forall>u \<in> set window. item_at (items s) (vi_index u) = Some e \<longrightarrow> vi_index u = i"
  shows "attributesOf (snd (render_loop window fragment s)) e ''aria-setsize''
           = Some (String_nat (length (items s)))
       \<and> attributesOf (snd (render_loop window fragment s)) e ''aria-posinset''
           = Some (String_int (i + 1))"
  using assms
proof (induction window arbitrary: fragment s)
  case Nil
  then show ?case by simp
next
  case (Cons u window)
  show ?case
  proof (cases "\<exists>w \<in> set window. item_at (items s) (vi_index w) = Some e")
    case True
    show ?thesis
    proof (cases "item_at (items s) (vi_index u)")
      case None
      with True Cons show ?thesis by simp
    next
      case (Some x)
      let ?s1 = "detach x (setAttribute x ''aria-posinset'' (String_int (vi_index u + 1))
                (setAttribute x ''aria-setsize'' (String_nat (length (items s))) s))"
      have "attributesOf (snd (render_loop window (remove1 x fragment @ [x]) ?s1)) e ''aria-setsize''
              = Some (String_nat (length (items ?s1)))
          \<and> attributesOf (snd (render_loop window (remove1 x fragment @ [x]) ?s1)) e ''aria-posinset''
              = Some (String_int (i + 1))"
        using True Cons.prems by (intro Cons.IH) auto
      with Some show ?thesis by simp
    qed
  next
    case False
    with Cons.prems have here: "item_at (items s) (vi_index u) = Some e" and idx: "vi_index u = i"
      by auto
    let ?s1 = "detach e (setAttribute e ''aria-posinset'' (String_int (vi_index u + 1))
                (setAttribute e ''aria-setsize'' (String_nat (length (items s))) s))"
    have "attributesOf (snd (render_loop window (remove1 e fragment @ [e]) ?s1)) e = attributesOf ?s1 e"
      using False by (intro render_loop_untouched) simp
    with here idx show ?thesis by (simp add: setAttribute_def)
  qed
qed

lemma item_at_distinct:
  "distinct xs \<Longrightarrow> item_at xs i = Some e \<Longrightarrow> item_at xs j = Some e \<Longrightarrow> i = j"
  by (auto simp: item_at_def nth_eq_iff_index_eq split: if_splits)

text \<open>
  Claim C1, as amended.  In a render pass over a registry of \<open>N\<close> items, the
  items container receives exactly the registry items that entries of the
  visible window select (an entry whose index has no registry item selects
  nothing, by \<open>item_at\<close>), and each of them leaves the pass with
  \<open>aria-setsize\<close> the decimal text of \<open>N\<close>.  Where every entry of the window
  that selects the item has the index of this entry, and so wherever the
  registry holds no element twice, the item leaves the pass with
  \<open>aria-posinset\<close> the decimal text of that index plus one.
\<close>

theorem render_stamps_aria:
  assumes "virtualizer s = Some v" and "sizerElement s = Some z" and "itemsContainer s = Some c"
    and "w \<in> set (virtualItems v)"
    and "item_at (items s) (vi_index w) = Some item"
  shows "items (state_of (render s)) = items s
       \<and> (\<exists>c'. itemsContainer (state_of (render s)) = Some c'
             \<and> item \<in> set (children c')
             \<and> set (children c')
                 = {e. \<exists>u \<in> set (virtualItems v). item_at (items s) (vi_index u) = Some e})
       \<and> attributesOf (state_of (render s)) item ''aria-setsize''
           = Some (String_nat (length (items s)))
       \<and> ((\<forall>u \<in> set (virtualItems v).
              item_at (items s) (vi_index u) = Some item \<longrightarrow> vi_index u = vi_index w) \<longrightarrow>
           attributesOf (state_of (render s)) item ''aria-posinset''
             = Some (String_int (vi_index w + 1)))
       \<and> (distinct (items s) \<longrightarrow>
           attributesOf (state_of (render s)) item ''aria-posinset''
             = Some (String_int (vi_index w + 1)))"
proof -
  let ?s1 = "s\<lparr>sizerElement := Some
                 (if orientation s = Horizontal
                  then z\<lparr>style_width := Some (Px (totalSize v)), style_height := Some (Percent 100)\<rparr>
                  else z\<lparr>style_height := Some (Px (totalSize v)), style_width := Some (Percent 100)\<rparr>)\<rparr>"
  have pass: "state_of (render s) = state_of (scheduleMeasurement (render_tree v z s))"
    using assms(1-3) by (simp add: render_def)
  have selected: "\<exists>u \<in> set (virtualItems v). item_at (items ?s1) (vi_index u) = Some item"
    using assms(4,5) by auto
  have "attributesOf (snd (render_loop (virtualItems v) [] ?s1)) item ''aria-setsize''
           = Some (String_nat (length (items ?s1)))"
    using selected by (rule render_loop_setsize)
  then have setsize:
    "attributesOf (render_tree v z s) item ''aria-setsize'' = Some (String_nat (length (items s)))"
    by (simp add: render_tree_def Let_def)
  have posinset:
    "attributesOf (render_tree v z s) item ''aria-posinset'' = Some (String_int (vi_index w + 1))"
    if only: "\<forall>u \<in> set (virtualItems v).
              item_at (items s) (vi_index u) = Some item \<longrightarrow> vi_index u = vi_index w"
  proof -
    have "attributesOf (snd (render_loop (virtualItems v) [] ?s1)) item ''aria-setsize''
             = Some (String_nat (length (items ?s1)))
         \<and> attributesOf (snd (render_loop (virtualItems v) [] ?s1)) item ''aria-posinset''
             = Some (String_int (vi_index w + 1))"
      using selected only by (intro render_loop_stamped) auto
    then show ?thesis
      by (simp add: render_tree_def Let_def)
  qed
  obtain c' where "itemsContainer (render_tree v z s) = Some c'"
    and "set (children c') = {e. \<exists>u \<in> set (virtualItems v). item_at (items s) (vi_index u) = Some e}"
    using render_tree_container [OF assms(3), of v z] by blast
  with assms(4,5) have "\<exists>c'. itemsContainer (render_tree v z s) = Some c' \<and> item \<in> set (children c')
      \<and> set (children c') = {e. \<exists>u \<in> set (virtualItems v). item_at (items s) (vi_index u) = Some e}"
    by auto
  moreover have "\<forall>u \<in> set (virtualItems v).
      item_at (items s) (vi_index u) = Some item \<longrightarrow> vi_index u = vi_index w"
    if "distinct (items s)"
    using item_at_distinct [OF that _ assms(5)] by blast
  ultimately show ?thesis
    using setsize posinset pass by simp
qed

theorem render_stamps_aria_witness:
  "item_at (items (showing browser)) 1 = Some second_div
   \<and> length (items (showing browser)) = 2
   \<and> attributesOf (state_of (render (showing browser))) second_div ''aria-setsize'' = Some ''2''
   \<and> attributesOf (state_of (render (showing browser))) second_div ''aria-posinset'' = Some ''2''"
proof -
  let ?v = "\<lparr>instance_id = 0,
         options = \<lparr>opt_count = 2, opt_overscan = 2, opt_horizontal = False, opt_paddingStart = 0,
                    opt_paddingEnd = 0, opt_scrollPaddingStart = 0, opt_scrollPaddingEnd = 0\<rparr>,
         setOptionsCalls = [], willUpdateCount = 1, measureCount = 0, measureElementCalls = [],
         virtualItems = both_visible, totalSize = 96\<rparr>"
  let ?w = "\<lparr>vi_index = 1, vi_start = 36, vi_size = 24, vi_end = 60\<rparr>"
  have v: "virtualizer (showing browser) = Some ?v"
    and z: "sizerElement (showing browser)
              = Some \<lparr>style_width = Some (Percent 100), style_height = Some (Px 96)\<rparr>"
    and c: "itemsContainer (showing browser)
              = Some \<lparr>children = [first_div, second_div],
                       style_transform = Some (Translate3d Zero (Px 12) Zero)\<rparr>"
    and registry: "items (showing browser) = [first_div, second_div]"
    by (simp_all add: showing_browser)
  have w: "?w \<in> set (virtualItems ?v)"
    by (simp add: both_visible_def)
  have at: "item_at (items (showing browser)) (vi_index ?w) = Some second_div"
    by (simp add: registry item_at_def)
  have only: "\<forall>u \<in> set (virtualItems ?v).
      item_at (items (showing browser)) (vi_index u) = Some second_div \<longrightarrow> vi_index u = vi_index ?w"
    by (simp add: registry item_at_def both_visible_def first_div_def second_div_def)
  from render_stamps_aria [OF v z c w at] only at registry show ?thesis
    by (simp add: String_int_def digit_char_def)
qed

lemma twice_tracked_browser:
  "twice_tracked browser = state_of (handleLightDomMutations
      [\<lparr>addedNodes = [first_div], removedNodes = []\<rparr>]
      ((showing browser)\<lparr>childNodes := [first_div]\<rparr>))"
  by (simp add: twice_tracked_def run_def showing_def connected_def)

lemma twice_tracked_items: "items (twice_tracked browser) = [first_div, second_div, first_div]"
  by (simp add: twice_tracked_browser handleLightDomMutations_items added_elements_def
      removed_elements_def showing_browser first_div_def)

lemma twice_tracked_fields:
  "virtualizer (twice_tracked browser) = Some \<lparr>instance_id = 0,
         options = \<lparr>opt_count = 3, opt_overscan = 2, opt_horizontal = False, opt_paddingStart = 0,
                    opt_paddingEnd = 0, opt_scrollPaddingStart = 0, opt_scrollPaddingEnd = 0\<rparr>,
         setOptionsCalls = [\<lparr>opt_count = 3, opt_overscan = 2, opt_horizontal = False,
                    opt_paddingStart = 0, opt_paddingEnd = 0, opt_scrollPaddingStart = 0,
                    opt_scrollPaddingEnd = 0\<rparr>],
         willUpdateCount = 2, measureCount = 1, measureElementCalls = [],
         virtualItems = both_visible, totalSize = 96\<rparr>"
  "sizerElement (twice_tracked browser)
     = Some \<lparr>style_width = Some (Percent 100), style_height = Some (Px 96)\<rparr>"
  "itemsContainer (twice_tracked browser)
     = Some \<lparr>children = [first_div, second_div],
              style_transform = Some (Translate3d Zero (Px 12) Zero)\<rparr>"
  unfolding twice_tracked_browser showing_browser
  by (simp_all add: handleLightDomMutations_def Let_def hasAttribute_def withoutChild_def
      first_div_def second_div_def updateVirtualizerOptions_def pushOptions_def createOptions_def
      render_def render_tree_def firstStart_def both_visible_def item_at_def setAttribute_def
      detach_def scheduleMeasurement_def requestAnimationFrame_def cancelAnimationFrame_def
      browser_def String_int_def digit_char_def)

text \<open>
  The claim as stated fails where the registry holds an element twice, which
  the element's own callbacks bring about: the page appends the first item to
  the element again and the observer delivers the addition, which is pushed
  onto the registry without a look at what the registry holds.  When the engine
  then reports the indices 0, 1 and 2, the entry of index 0 selects the first
  item, and the pass leaves that item with \<open>aria-posinset\<close> 3.
\<close>

theorem item_tracked_twice_is_stamped_last:
  "items (twice_tracked browser) = [first_div, second_div, first_div]
   \<and> item_at (items (twice_tracked browser)) 0 = Some first_div
   \<and> attributesOf (state_of (setVirtualState 0 three_visible 72 (twice_tracked browser)))
         first_div ''aria-posinset'' = Some ''3''
   \<and> attributesOf (state_of (setVirtualState 0 three_visible 72 (twice_tracked browser)))
         second_div ''aria-posinset'' = Some ''2''
   \<and> map_option children
         (itemsContainer (state_of (setVirtualState 0 three_visible 72 (twice_tracked browser))))
       = Some [second_div, first_div]"
proof -
  note registry = twice_tracked_items
  have selected: "item_at (items (twice_tracked browser)) 0 = Some first_div"
    by (simp add: registry item_at_def)
  let ?s = "state_of (setVirtualState 0 three_visible 72 (twice_tracked browser))"
  have "attributesOf ?s first_div ''aria-posinset'' = Some ''3''"
    and "attributesOf ?s second_div ''aria-posinset'' = Some ''2''"
    and "map_option children (itemsContainer ?s) = Some [second_div, first_div]"
    by (simp_all add: setVirtualState_def onChange_def twice_tracked_fields registry render_def
        render_tree_def Let_def three_visible_def item_at_def setAttribute_def detach_def
        String_int_def digit_char_def first_div_def second_div_def)
  with registry selected show ?thesis
    by simp
qed

text \<open>
  Claim C8.  A render pass sets the sizer's extent along the active axis to the
  total extent the engine reports and the extent across it to 100%, and sets the
  items container's transform to a translation along the active axis by the
  start offset of the first entry of the visible window, or by 0 when the window
  is empty, the other two components being the bare 0.  Changing the attribute
  \<open>orientation\<close> to \<open>horizontal\<close> on a vertical list makes the sizer's width
  the total extent and the translation horizontal within that call.
\<close>

theorem render_lays_out:
  assumes "virtualizer s = Some v" and "sizerElement s = Some z" and "itemsContainer s = Some c"
  shows "(orientation s = Vertical \<longrightarrow>
            sizerElement (state_of (render s))
              = Some (z\<lparr>style_height := Some (Px (totalSize v)), style_width := Some (Percent 100)\<rparr>)
          \<and> (\<exists>c'. itemsContainer (state_of (render s)) = Some c'
                \<and> style_transform c' = Some
                     (case virtualItems v of
                        [] \<Rightarrow> Translate3d Zero (Px 0) Zero
                      | first # rest \<Rightarrow> Translate3d Zero (Px (vi_start first)) Zero)))
       \<and> (orientation s = Horizontal \<longrightarrow>
            sizerElement (state_of (render s))
              = Some (z\<lparr>style_width := Some (Px (totalSize v)), style_height := Some (Percent 100)\<rparr>)
          \<and> (\<exists>c'. itemsContainer (state_of (render s)) = Some c'
                \<and> style_transform c' = Some
                     (case virtualItems v of
                        [] \<Rightarrow> Translate3d (Px 0) Zero Zero
                      | first # rest \<Rightarrow> Translate3d (Px (vi_start first)) Zero Zero)))
       \<and> (orientation s = Vertical \<and> oldValue \<noteq> Some ''horizontal'' \<longrightarrow>
            sizerElement (state_of (attributeChangedCallback ''orientation'' oldValue (Some ''horizontal'') s))
              = Some (z\<lparr>style_width := Some (Px (totalSize v)), style_height := Some (Percent 100)\<rparr>)
          \<and> (\<exists>c'. itemsContainer (state_of (attributeChangedCallback ''orientation'' oldValue (Some ''horizontal'') s)) = Some c'
                \<and> style_transform c' = Some
                     (case virtualItems v of
                        [] \<Rightarrow> Translate3d (Px 0) Zero Zero
                      | first # rest \<Rightarrow> Translate3d (Px (vi_start first)) Zero Zero)))"
proof -
  have pass: "state_of (render s1) = state_of (scheduleMeasurement (render_tree v1 z s1))"
    if "virtualizer s1 = Some v1" "sizerElement s1 = Some z" "itemsContainer s1 = Some c" for s1 v1
    using that by (simp add: render_def)
  have layout: "sizerElement (state_of (render s1)) = Some
           (if orientation s1 = Horizontal
            then z\<lparr>style_width := Some (Px (totalSize v1)), style_height := Some (Percent 100)\<rparr>
            else z\<lparr>style_height := Some (Px (totalSize v1)), style_width := Some (Percent 100)\<rparr>)
      \<and> (\<exists>c'. itemsContainer (state_of (render s1)) = Some c'
            \<and> style_transform c' = Some
                (if orientation s1 = Horizontal
                 then Translate3d (Px (firstStart (virtualItems v1))) Zero Zero
                 else Translate3d Zero (Px (firstStart (virtualItems v1))) Zero))"
    if "virtualizer s1 = Some v1" "sizerElement s1 = Some z" "itemsContainer s1 = Some c" for s1 v1
    using render_tree_container [OF that(3), of v1 z] pass [OF that]
    by (auto simp: render_tree_sizer)
  let ?pushed = "v\<lparr>willUpdateCount := Suc (willUpdateCount v),
          options := createOptions (s\<lparr>orientation := Horizontal\<rparr>),
          setOptionsCalls := setOptionsCalls v @ [createOptions (s\<lparr>orientation := Horizontal\<rparr>)],
          measureCount := Suc (measureCount v)\<rparr>"
  let ?s1 = "s\<lparr>orientation := Horizontal, virtualizer := Some ?pushed\<rparr>"
  have switch: "state_of (attributeChangedCallback ''orientation'' oldValue (Some ''horizontal'') s)
      = state_of (render ?s1)" if "oldValue \<noteq> Some ''horizontal''"
    using that assms(1)
    by (simp add: attributeChangedCallback_def applyAttribute_def updateVirtualizerOptions_def
        pushOptions_def)
  have switched: "sizerElement (state_of (render ?s1)) = Some
           (z\<lparr>style_width := Some (Px (totalSize v)), style_height := Some (Percent 100)\<rparr>)
      \<and> (\<exists>c'. itemsContainer (state_of (render ?s1)) = Some c'
            \<and> style_transform c' = Some (Translate3d (Px (firstStart (virtualItems v))) Zero Zero))"
    using layout [of ?s1 ?pushed] assms by simp
  show ?thesis
    using layout [OF assms] switch switched
    by (auto simp: firstStart_def split: list.splits)
qed

theorem render_lays_out_witness:
  "orientation (showing browser) = Vertical
   \<and> sizerElement (state_of (render (showing browser)))
       = Some \<lparr>style_width = Some (Percent 100), style_height = Some (Px 96)\<rparr>
   \<and> sizerElement (state_of (attributeChangedCallback ''orientation'' None (Some ''horizontal'') (showing browser)))
       = Some \<lparr>style_width = Some (Px 96), style_height = Some (Percent 100)\<rparr>
   \<and> map_option style_transform (itemsContainer (state_of (render (showing browser))))
       = Some (Some (Translate3d Zero (Px 12) Zero))
   \<and> map_option style_transform (itemsContainer (state_of
         (attributeChangedCallback ''orientation'' None (Some ''horizontal'') (showing browser))))
       = Some (Some (Translate3d (Px 12) Zero Zero))"
proof -
  let ?v = "\<lparr>instance_id = 0,
         options = \<lparr>opt_count = 2, opt_overscan = 2, opt_horizontal = False, opt_paddingStart = 0,
                    opt_paddingEnd = 0, opt_scrollPaddingStart = 0, opt_scrollPaddingEnd = 0\<rparr>,
         setOptionsCalls = [], willUpdateCount = 1, measureCount = 0, measureElementCalls = [],
         virtualItems = both_visible, totalSize = 96\<rparr>"
  have v: "virtualizer (showing browser) = Some ?v"
    and z: "sizerElement (showing browser)
              = Some \<lparr>style_width = Some (Percent 100), style_height = Some (Px 96)\<rparr>"
    and c: "itemsContainer (showing browser)
              = Some \<lparr>children = [first_div, second_div],
                       style_transform = Some (Translate3d Zero (Px 12) Zero)\<rparr>"
    and vertical: "orientation (showing browser) = Vertical"
    by (simp_all add: showing_browser)
  from render_lays_out [OF v z c, of None] vertical show ?thesis
    by (auto simp: both_visible_def)
qed

subsection \<open>Change notifications of the engine\<close>

text \<open>
  Claim C10.  A change notification from an instance other than the one the
  element retains (also when it retains none) returns and leaves the whole state
  as it was; a notification from the retained instance is a render pass.
\<close>

theorem onChange_only_from_current_instance:
  "(map_option instance_id (virtualizer s) \<noteq> Some inst \<longrightarrow> onChange inst s = Returned s)
   \<and> (map_option instance_id (virtualizer s) = Some inst \<longrightarrow> onChange inst s = render s)"
  by (auto simp: onChange_def split: option.splits)

theorem onChange_only_from_current_instance_witness:
  "map_option instance_id (virtualizer (showing browser)) = Some 0
   \<and> onChange 0 (showing browser) = render (showing browser)
   \<and> onChange 1 (showing browser) = Returned (showing browser)
   \<and> virtualizer (disconnectedCallback (showing browser)) = None
   \<and> onChange 0 (disconnectedCallback (showing browser)) = Returned (disconnectedCallback (showing browser))
   \<and> map_option instance_id (virtualizer (reconnected browser)) = Some 1
   \<and> onChange 0 (reconnected browser) = Returned (reconnected browser)"
proof -
  have again: "map_option instance_id (virtualizer (reconnected browser)) = Some 1"
    unfolding reconnected_def showing_browser
    by (simp add: disconnectedCallback_def teardownVirtualizer_def
        stopObservingLightDom_def cancelAnimationFrame_def connectedCallback_def
        startObservingLightDom_def mountVirtualizer_def newVirtualizer_def Let_def browser_def)
  have current: "map_option instance_id (virtualizer (showing browser)) = Some 0"
    by (simp add: showing_browser)
  have released: "virtualizer (disconnectedCallback (showing browser)) = None"
    by (simp add: disconnectedCallback_def)
  from onChange_only_from_current_instance [of "showing browser" 0]
    onChange_only_from_current_instance [of "showing browser" 1]
    onChange_only_from_current_instance [of "disconnectedCallback (showing browser)" 0]
    onChange_only_from_current_instance [of "reconnected browser" 0]
    current released again
  show ?thesis by simp
qed

subsection \<open>Pending measurements\<close>

lemma scheduling_invariant_fields:
  "host t = host s \<Longrightarrow> animationFrames t = animationFrames s \<Longrightarrow> rafId t = rafId s \<Longrightarrow>
   microtasks t = microtasks s \<Longrightarrow> nextFrameHandle t = nextFrameHandle s \<Longrightarrow>
   scheduling_invariant t = scheduling_invariant s"
  by (simp add: scheduling_invariant_def frames_tracked_def)

lemma scheduleMeasurement_invariant:
  "scheduling_invariant s \<Longrightarrow>
   scheduling_invariant (state_of (scheduleMeasurement s)) \<and> returned (scheduleMeasurement s)"
  by (auto simp: scheduling_invariant_def frames_tracked_def scheduleMeasurement_def
      requestAnimationFrame_def cancelAnimationFrame_def split: option.splits)

lemma render_invariant:
  assumes "scheduling_invariant s"
  shows "scheduling_invariant (state_of (render s)) \<and> returned (render s)"
proof (cases "\<exists>v z. virtualizer s = Some v \<and> sizerElement s = Some z \<and> itemsContainer s \<noteq> None")
  case False
  then have "render s = Returned s"
    by (auto simp: render_def split: option.splits)
  with assms show ?thesis by simp
next
  case True
  then obtain v z where pass: "virtualizer s = Some v" "sizerElement s = Some z" "itemsContainer s \<noteq> None"
    by blast
  have "scheduling_invariant (render_tree v z s)"
    using assms scheduling_invariant_fields [of "render_tree v z s" s] by simp
  from scheduleMeasurement_invariant [OF this] pass show ?thesis
    by (auto simp: render_def)
qed

lemma pushOptions_invariant:
  assumes "scheduling_invariant s"
  shows "scheduling_invariant (state_of (pushOptions v s)) \<and> returned (pushOptions v s)"
proof -
  let ?s1 = "s\<lparr>virtualizer := Some
       (v\<lparr>willUpdateCount := Suc (willUpdateCount v),
          options := createOptions s,
          setOptionsCalls := setOptionsCalls v @ [createOptions s],
          measureCount := Suc (measureCount v)\<rparr>)\<rparr>"
  have "scheduling_invariant ?s1"
    using assms scheduling_invariant_fields [of ?s1 s] by simp
  from render_invariant [OF this] show ?thesis
    by (simp add: pushOptions_def)
qed

lemma updateVirtualizerOptions_invariant:
  "scheduling_invariant s \<Longrightarrow>
   scheduling_invariant (state_of (updateVirtualizerOptions s)) \<and> returned (updateVirtualizerOptions s)"
  using pushOptions_invariant
  by (simp add: updateVirtualizerOptions_def split: option.splits)

lemma attributeChangedCallback_invariant:
  assumes "scheduling_invariant s"
  shows "scheduling_invariant (state_of (attributeChangedCallback name oldValue newValue s))
       \<and> returned (attributeChangedCallback name oldValue newValue s)"
proof -
  have "scheduling_invariant (applyAttribute name newValue s)"
    using assms scheduling_invariant_fields [of "applyAttribute name newValue s" s] by simp
  from updateVirtualizerOptions_invariant [OF this] assms show ?thesis
    by (simp add: attributeChangedCallback_def)
qed

lemma onChange_invariant:
  "scheduling_invariant s \<Longrightarrow>
   scheduling_invariant (state_of (onChange inst s)) \<and> returned (onChange inst s)"
  using render_invariant by (simp add: onChange_def split: option.splits)

lemma setVirtualState_invariant:
  assumes "scheduling_invariant s"
  shows "scheduling_invariant (state_of (setVirtualState inst window extent s))
       \<and> returned (setVirtualState inst window extent s)"
proof (cases "virtualizer s")
  case None
  with onChange_invariant [OF assms] show ?thesis by (simp add: setVirtualState_def)
next
  case (Some v)
  let ?s1 = "s\<lparr>virtualizer := Some (v\<lparr>virtualItems := window, totalSize := extent\<rparr>)\<rparr>"
  have "scheduling_invariant ?s1"
    using assms scheduling_invariant_fields [of ?s1 s] by simp
  from onChange_invariant [OF this] onChange_invariant [OF assms] Some show ?thesis
    by (simp add: setVirtualState_def)
qed

lemma mountVirtualizer_invariant:
  assumes "scheduling_invariant s"
  shows "scheduling_invariant (state_of (mountVirtualizer s)) \<and> returned (mountVirtualizer s)"
proof (cases "\<not> scrollElement s \<or> itemsContainer s = None")
  case True
  with assms show ?thesis by (simp add: mountVirtualizer_def)
next
  case False
  show ?thesis
  proof (cases "virtualizer s")
    case (Some v)
    with pushOptions_invariant [OF assms] False show ?thesis
      by (auto simp: mountVirtualizer_def)
  next
    case None
    let ?v = "newVirtualizer (instanceCount s) (createOptions s)"
    let ?s1 = "s\<lparr>virtualizer := Some (?v\<lparr>willUpdateCount := Suc (willUpdateCount ?v)\<rparr>),
                          virtualizerCleanup := Some (instance_id ?v),
                          instanceCount := Suc (instanceCount s)\<rparr>"
    have "scheduling_invariant ?s1"
      using assms scheduling_invariant_fields [of ?s1 s] by simp
    from render_invariant [OF this] None False show ?thesis
      by (auto simp: mountVirtualizer_def Let_def)
  qed
qed

lemma applyInitialAttributes_loop_invariant:
  "scheduling_invariant s \<Longrightarrow>
   scheduling_invariant (state_of (applyInitialAttributes_loop names s))
   \<and> returned (applyInitialAttributes_loop names s)"
proof (induction names arbitrary: s)
  case Nil
  then show ?case by simp
next
  case (Cons name names)
  show ?case
  proof (cases "hostAttributes s name")
    case None
    with Cons show ?thesis by simp
  next
    case (Some v)
    from attributeChangedCallback_invariant [OF Cons.prems, of name None "Some v"]
    obtain s1 where "attributeChangedCallback name None (Some v) s = Returned s1"
      and "scheduling_invariant s1"
      by (cases "attributeChangedCallback name None (Some v) s") auto
    with Cons.IH [of s1] Some show ?thesis by simp
  qed
qed

lemma applyInitialAttributes_invariant:
  assumes "scheduling_invariant s"
  shows "scheduling_invariant (state_of (applyInitialAttributes s)) \<and> returned (applyInitialAttributes s)"
proof -
  let ?s1 = "s\<lparr>orientation :=
            (if hostAttributes s ''orientation'' = Some ''horizontal'' then Horizontal else Vertical)\<rparr>"
  have "scheduling_invariant ?s1"
    using assms scheduling_invariant_fields [of ?s1 s] by simp
  from applyInitialAttributes_loop_invariant [OF this] show ?thesis
    by (simp add: applyInitialAttributes_def)
qed

lemma initialize_invariant:
  assumes "scheduling_invariant s"
  shows "scheduling_invariant (state_of (initialize s)) \<and> returned (initialize s)"
proof -
  let ?s2 = "if hostAttributes (s\<lparr>initialized := True\<rparr>) ''role'' = None
             then s\<lparr>initialized := True\<rparr>\<lparr>hostAttributes := (hostAttributes (s\<lparr>initialized := True\<rparr>))(''role'' \<mapsto> ''list'')\<rparr>
             else s\<lparr>initialized := True\<rparr>"
  obtain s3 where captured: "captureChildren ?s2 = Returned s3"
    and fields: "host s3 = host ?s2" "animationFrames s3 = animationFrames ?s2"
      "rafId s3 = rafId ?s2" "microtasks s3 = microtasks ?s2"
      "nextFrameHandle s3 = nextFrameHandle ?s2"
    by (simp add: captureChildren_result)
  have "scheduling_invariant (setupShadowDom s3)"
    using assms fields scheduling_invariant_fields [of "setupShadowDom s3" s]
    by (simp add: setupShadowDom_def)
  from applyInitialAttributes_invariant [OF this]
  obtain s4 where applied: "applyInitialAttributes (setupShadowDom s3) = Returned s4"
    and "scheduling_invariant s4"
    by (cases "applyInitialAttributes (setupShadowDom s3)") auto
  then have "scheduling_invariant (startObservingLightDom s4)"
    using scheduling_invariant_fields [of "startObservingLightDom s4" s4]
    by (simp add: startObservingLightDom_def)
  from mountVirtualizer_invariant [OF this] captured applied show ?thesis
    by (simp add: initialize_def Let_def)
qed

lemma connectedCallback_invariant:
  assumes "scheduling_invariant s"
  shows "scheduling_invariant (state_of (connectedCallback s)) \<and> returned (connectedCallback s)"
proof (cases "initialized s")
  case False
  with initialize_invariant [OF assms] show ?thesis by (simp add: connectedCallback_def)
next
  case True
  have "scheduling_invariant (startObservingLightDom s)"
    using assms scheduling_invariant_fields [of "startObservingLightDom s" s]
    by (simp add: startObservingLightDom_def)
  from mountVirtualizer_invariant [OF this] True show ?thesis
    by (simp add: connectedCallback_def)
qed

lemma teardownVirtualizer_invariant:
  "scheduling_invariant s \<Longrightarrow>
   scheduling_invariant (teardownVirtualizer s) \<and> pendingMeasurements (teardownVirtualizer s) = 0"
  by (auto simp: scheduling_invariant_def frames_tracked_def teardownVirtualizer_def Let_def
      cancelAnimationFrame_def pendingMeasurements_def split: option.splits)

lemma disconnectedCallback_invariant:
  assumes "scheduling_invariant s"
  shows "scheduling_invariant (disconnectedCallback s) \<and> pendingMeasurements (disconnectedCallback s) = 0"
proof -
  have "scheduling_invariant (stopObservingLightDom s)"
    using assms scheduling_invariant_fields [of "stopObservingLightDom s" s]
    by (simp add: stopObservingLightDom_def split: option.splits)
  from teardownVirtualizer_invariant [OF this] show ?thesis
    by (simp add: disconnectedCallback_def)
qed

lemma measure_callback_scheduling [simp]:
  "host (measure_callback s) = host s"
  "animationFrames (measure_callback s) = animationFrames s"
  "rafId (measure_callback s) = None"
  "microtasks (measure_callback s) = microtasks s"
  "nextFrameHandle (measure_callback s) = nextFrameHandle s"
  by (simp_all add: measure_callback_def split: option.splits)

lemma runAnimationFrame_invariant:
  "scheduling_invariant s \<Longrightarrow> scheduling_invariant (runAnimationFrame h s)"
  by (auto simp: scheduling_invariant_def frames_tracked_def runAnimationFrame_def
      split: option.splits)

lemma runMicrotask_invariant:
  "scheduling_invariant s \<Longrightarrow> scheduling_invariant (runMicrotask s)"
  by (auto simp: scheduling_invariant_def frames_tracked_def runMicrotask_def)

lemma addedNodes_forEach_scheduling [simp]:
  "host (element_state (addedNodes_forEach nodes r)) = host (element_state r)"
  "animationFrames (element_state (addedNodes_forEach nodes r)) = animationFrames (element_state r)"
  "rafId (element_state (addedNodes_forEach nodes r)) = rafId (element_state r)"
  "microtasks (element_state (addedNodes_forEach nodes r)) = microtasks (element_state r)"
  "nextFrameHandle (element_state (addedNodes_forEach nodes r)) = nextFrameHandle (element_state r)"
  by (induction nodes arbitrary: r) (simp_all add: withoutChild_def)

lemma removedNodes_forEach_scheduling [simp]:
  "host (element_state (removedNodes_forEach nodes r)) = host (element_state r)"
  "animationFrames (element_state (removedNodes_forEach nodes r)) = animationFrames (element_state r)"
  "rafId (element_state (removedNodes_forEach nodes r)) = rafId (element_state r)"
  "microtasks (element_state (removedNodes_forEach nodes r)) = microtasks (element_state r)"
  "nextFrameHandle (element_state (removedNodes_forEach nodes r)) = nextFrameHandle (element_state r)"
  by (induction nodes arbitrary: r) simp_all

lemma mutations_loop_scheduling [simp]:
  "host (element_state (mutations_loop mutations r)) = host (element_state r)"
  "animationFrames (element_state (mutations_loop mutations r)) = animationFrames (element_state r)"
  "rafId (element_state (mutations_loop mutations r)) = rafId (element_state r)"
  "microtasks (element_state (mutations_loop mutations r)) = microtasks (element_state r)"
  "nextFrameHandle (element_state (mutations_loop mutations r)) = nextFrameHandle (element_state r)"
  by (induction mutations arbitrary: r) simp_all

lemma additions_loop_scheduling [simp]:
  "host (additions_loop elements s) = host s"
  "animationFrames (additions_loop elements s) = animationFrames s"
  "rafId (additions_loop elements s) = rafId s"
  "microtasks (additions_loop elements s) = microtasks s"
  "nextFrameHandle (additions_loop elements s) = nextFrameHandle s"
  by (induction elements arbitrary: s) (simp_all add: Let_def withoutChild_def setAttribute_def)

lemma handleLightDomMutations_invariant:
  assumes "scheduling_invariant s"
  shows "scheduling_invariant (state_of (handleLightDomMutations mutations s))
       \<and> returned (handleLightDomMutations mutations s)"
proof -
  let ?r = "mutations_loop mutations \<lparr>additions = [], changed = False, element_state = s\<rparr>"
  have read: "scheduling_invariant (element_state ?r)"
    using assms scheduling_invariant_fields [of "element_state ?r" s] by simp
  have "scheduling_invariant (additions_loop (additions ?r) (element_state ?r))"
    using assms scheduling_invariant_fields [of "additions_loop (additions ?r) (element_state ?r)" s]
    by simp
  from updateVirtualizerOptions_invariant [OF this] updateVirtualizerOptions_invariant [OF read] read
  show ?thesis
    by (simp add: handleLightDomMutations_def Let_def)
qed

lemma perform_invariant: "scheduling_invariant s \<Longrightarrow> scheduling_invariant (perform e s)"
proof (cases e)
  case (LightDomEdited nodes)
  assume "scheduling_invariant s"
  then show ?thesis
    using scheduling_invariant_fields [of "s\<lparr>childNodes := nodes\<rparr>" s] LightDomEdited by simp
qed (simp_all add: connectedCallback_invariant disconnectedCallback_invariant
      attributeChangedCallback_invariant handleLightDomMutations_invariant
      setVirtualState_invariant runAnimationFrame_invariant runMicrotask_invariant)

lemma run_invariant: "scheduling_invariant s \<Longrightarrow> scheduling_invariant (run events s)"
  unfolding run_def
  by (induction events arbitrary: s) (simp_all add: perform_invariant)

lemma created_invariant:
  "has_requestAnimationFrame h \<Longrightarrow> has_cancelAnimationFrame h \<Longrightarrow>
   scheduling_invariant (created h own nodes attrs)"
  by (simp add: scheduling_invariant_def frames_tracked_def created_def)

lemma invariant_pending: "scheduling_invariant s \<Longrightarrow> pendingMeasurements s \<le> 1"
  by (auto simp: scheduling_invariant_def frames_tracked_def pendingMeasurements_def
      split: option.splits)

lemma render_queues_microtask:
  assumes "\<not> has_requestAnimationFrame (host s)"
    and "virtualizer s \<noteq> None" and "sizerElement s \<noteq> None" and "itemsContainer s \<noteq> None"
  shows "pendingMeasurements (state_of (render s)) = Suc (pendingMeasurements s)"
proof -
  from assms obtain v z where pass: "virtualizer s = Some v" "sizerElement s = Some z"
    by auto
  have there: "itemsContainer (render_tree v z s) \<noteq> None"
    using render_tree_container [of s _ v z] assms(4) by auto
  have "state_of (scheduleMeasurement (render_tree v z s))
      = (render_tree v z s)\<lparr>microtasks := Suc (microtasks (render_tree v z s))\<rparr>"
    using assms(1) pass there by (simp add: scheduleMeasurement_def)
  then show ?thesis
    using pass assms(4) by (auto simp: render_def pendingMeasurements_def)
qed

lemma render_requests_one_frame:
  assumes "scheduling_invariant s"
    and "virtualizer s \<noteq> None" and "sizerElement s \<noteq> None" and "itemsContainer s \<noteq> None"
  shows "animationFrames (state_of (render s)) = [nextFrameHandle s]
       \<and> rafId (state_of (render s)) = Some (nextFrameHandle s)
       \<and> microtasks (state_of (render s)) = 0
       \<and> (\<forall>previous. rafId s = Some previous \<longrightarrow>
             previous \<notin> set (animationFrames (state_of (render s))))"
proof -
  from assms obtain v z where pass: "virtualizer s = Some v" "sizerElement s = Some z"
    by auto
  have there: "itemsContainer (render_tree v z s) \<noteq> None"
    using render_tree_container [of s _ v z] assms(4) by auto
  have "animationFrames (state_of (scheduleMeasurement (render_tree v z s))) = [nextFrameHandle s]
      \<and> rafId (state_of (scheduleMeasurement (render_tree v z s))) = Some (nextFrameHandle s)
      \<and> microtasks (state_of (scheduleMeasurement (render_tree v z s))) = 0
      \<and> (\<forall>previous. rafId s = Some previous \<longrightarrow>
            previous \<notin> set (animationFrames (state_of (scheduleMeasurement (render_tree v z s)))))"
    using assms(1) pass there
    by (auto simp: scheduleMeasurement_def scheduling_invariant_def frames_tracked_def
        requestAnimationFrame_def cancelAnimationFrame_def split: option.splits)
  then show ?thesis
    using pass assms(4) by (auto simp: render_def)
qed

text \<open>
  Claim C4, as amended.  In a host that provides \<open>requestAnimationFrame\<close> and
  \<open>cancelAnimationFrame\<close>, whatever has happened to the element since it was
  created, at most one measurement callback is pending, before and after a
  render pass; the render pass returns, and when it renders (an instance, the
  sizer and the items container exist) the one callback pending afterwards is
  the frame it has just requested, its predecessor having been cancelled.  In a
  host without \<open>requestAnimationFrame\<close>, a render pass that renders adds one
  pending measurement callback to those there are and cancels none.
\<close>

theorem one_measurement_pending:
  assumes "has_requestAnimationFrame h" and "has_cancelAnimationFrame h"
    and "s = run events (created h own nodes attrs)"
  shows "pendingMeasurements s \<le> 1
       \<and> returned (render s)
       \<and> pendingMeasurements (state_of (render s)) \<le> 1
       \<and> (virtualizer s \<noteq> None \<and> sizerElement s \<noteq> None \<and> itemsContainer s \<noteq> None \<longrightarrow>
            animationFrames (state_of (render s)) = [nextFrameHandle s]
          \<and> rafId (state_of (render s)) = Some (nextFrameHandle s)
          \<and> microtasks (state_of (render s)) = 0
          \<and> (\<forall>previous. rafId s = Some previous \<longrightarrow>
                previous \<notin> set (animationFrames (state_of (render s)))))
       \<and> (\<not> has_requestAnimationFrame (host t)
            \<and> virtualizer t \<noteq> None \<and> sizerElement t \<noteq> None \<and> itemsContainer t \<noteq> None \<longrightarrow>
            pendingMeasurements (state_of (render t)) = Suc (pendingMeasurements t))"
proof -
  have inv: "scheduling_invariant s"
    unfolding assms(3) using assms(1,2) by (intro run_invariant created_invariant)
  note after = render_invariant [OF inv]
  from inv have "pendingMeasurements s \<le> 1"
    by (rule invariant_pending)
  moreover from after have "returned (render s)"
    by simp
  moreover from after have "pendingMeasurements (state_of (render s)) \<le> 1"
    by (intro invariant_pending) simp
  ultimately show ?thesis
    using render_requests_one_frame [OF inv] render_queues_microtask [of t]
    by blast
qed

theorem one_measurement_pending_witness:
  "showing browser = run [Connected, EngineChanged 0 both_visible 96] (authored browser)
   \<and> pendingMeasurements (showing browser) \<le> 1
   \<and> animationFrames (state_of (render (showing browser))) = [3]
   \<and> pendingMeasurements (state_of (render (showing frameless))) = 3"
proof -
  have path: "showing browser = run [Connected, EngineChanged 0 both_visible 96]
      (created browser Map.empty [first_div, text_node, second_div]
         ((\<lambda>n. Map.empty)(first_div := [''id'' \<mapsto> ''first''])))"
    by (simp add: run_def showing_def connected_def authored_def)
  have full: "has_requestAnimationFrame browser" "has_cancelAnimationFrame browser"
    by (simp_all add: browser_def)
  have surfaces: "virtualizer (showing browser) \<noteq> None" "sizerElement (showing browser) \<noteq> None"
    "itemsContainer (showing browser) \<noteq> None" "nextFrameHandle (showing browser) = 3"
    by (simp_all add: showing_browser)
  have fallback: "\<not> has_requestAnimationFrame (host (showing frameless))"
    "virtualizer (showing frameless) \<noteq> None" "sizerElement (showing frameless) \<noteq> None"
    "itemsContainer (showing frameless) \<noteq> None" "pendingMeasurements (showing frameless) = 2"
    by (simp_all add: pendingMeasurements_def example_defs element_defs)
  from one_measurement_pending [OF full path, of "showing frameless"] surfaces fallback path
  show ?thesis
    by (simp add: authored_def)
qed

text \<open>
  The claim as stated fails in the microtask fallback: after the element is
  connected and the engine has reported a window once, two measurement
  callbacks are pending.
\<close>

theorem fallback_queues_two_measurements:
  "\<not> has_requestAnimationFrame (host (connected frameless))
   \<and> pendingMeasurements (connected frameless) = 1
   \<and> showing frameless = state_of (setVirtualState 0 both_visible 96 (connected frameless))
   \<and> pendingMeasurements (showing frameless) = 2"
  by (simp add: pendingMeasurements_def example_defs element_defs)

subsection \<open>Deactivation\<close>

lemma teardownVirtualizer_idempotent:
  "teardownVirtualizer (teardownVirtualizer s) = teardownVirtualizer s"
  by (cases "rafId s"; cases "virtualizerCleanup s")
    (simp_all add: teardownVirtualizer_def Let_def cancelAnimationFrame_def)

lemma stopObservingLightDom_teardown:
  "stopObservingLightDom (teardownVirtualizer (stopObservingLightDom s))
     = teardownVirtualizer (stopObservingLightDom s)"
  by (cases "rafId s"; cases "virtualizerCleanup s"; cases "mutationObserver s")
    (simp_all add: teardownVirtualizer_def stopObservingLightDom_def Let_def cancelAnimationFrame_def)

lemma disconnectedCallback_idempotent:
  "disconnectedCallback (disconnectedCallback s) = disconnectedCallback s"
  by (simp add: disconnectedCallback_def stopObservingLightDom_teardown teardownVirtualizer_idempotent)

lemma disconnectedCallback_effect:
  "mutationObserver (disconnectedCallback s) = None"
  "cleanupCalls (disconnectedCallback s)
     = cleanupCalls s @ (case virtualizerCleanup s of None \<Rightarrow> [] | Some i \<Rightarrow> [i])"
  "microtasks (disconnectedCallback s) = microtasks s"
  "has_cancelAnimationFrame (host s) \<Longrightarrow> rafId (disconnectedCallback s) = None"
  "has_cancelAnimationFrame (host s) \<Longrightarrow>
     animationFrames (disconnectedCallback s)
       = (case rafId s of None \<Rightarrow> animationFrames s | Some h \<Rightarrow> removeAll h (animationFrames s))"
  by (cases "rafId s"; cases "virtualizerCleanup s"; cases "mutationObserver s";
      simp add: disconnectedCallback_def teardownVirtualizer_def stopObservingLightDom_def Let_def
        cancelAnimationFrame_def)+

text \<open>
  Claim C7, as amended.  Deactivation cannot raise (no statement of
  \<open>disconnectedCallback\<close> can: the call of \<open>cancelAnimationFrame\<close> is guarded by
  \<open>typeof\<close>).  It releases the instance and the teardown handle, having invoked
  the handle exactly once if one was retained; a second deactivation right after
  the first changes nothing, so the handle is not invoked again.  In a host that
  provides \<open>cancelAnimationFrame\<close> it cancels the frame whose handle is retained
  and clears the handle; in a host that provides both frame functions no
  measurement callback is pending afterwards, whatever has happened to the
  element since it was created.  Queued microtasks are left as they are.
\<close>

theorem teardown_runs_handle_once:
  "virtualizer (disconnectedCallback s) = None
   \<and> virtualizerCleanup (disconnectedCallback s) = None
   \<and> cleanupCalls (disconnectedCallback s)
       = cleanupCalls s @ (case virtualizerCleanup s of None \<Rightarrow> [] | Some i \<Rightarrow> [i])
   \<and> disconnectedCallback (disconnectedCallback s) = disconnectedCallback s
   \<and> (has_cancelAnimationFrame (host s) \<longrightarrow>
         rafId (disconnectedCallback s) = None
       \<and> animationFrames (disconnectedCallback s)
           = (case rafId s of None \<Rightarrow> animationFrames s | Some h \<Rightarrow> removeAll h (animationFrames s)))
   \<and> microtasks (disconnectedCallback s) = microtasks s
   \<and> (has_requestAnimationFrame h \<and> has_cancelAnimationFrame h
        \<and> s = run events (created h own nodes attrs) \<longrightarrow>
         pendingMeasurements (disconnectedCallback s) = 0)"
proof -
  have "pendingMeasurements (disconnectedCallback s) = 0"
    if "has_requestAnimationFrame h" "has_cancelAnimationFrame h"
      "s = run events (created h own nodes attrs)"
  proof -
    have "scheduling_invariant s"
      unfolding that(3) using that(1,2) by (intro run_invariant created_invariant)
    then show ?thesis
      by (simp add: disconnectedCallback_invariant)
  qed
  moreover have "virtualizer (disconnectedCallback s) = None"
    "virtualizerCleanup (disconnectedCallback s) = None"
    by (simp_all add: disconnectedCallback_def)
  ultimately show ?thesis
    by (simp add: disconnectedCallback_effect disconnectedCallback_idempotent)
qed

theorem teardown_runs_handle_once_witness:
  "virtualizerCleanup (showing browser) = Some 0
   \<and> rafId (showing browser) = Some 2
   \<and> animationFrames (showing browser) = [2]
   \<and> cleanupCalls (disconnectedCallback (showing browser)) = [0]
   \<and> animationFrames (disconnectedCallback (showing browser)) = []
   \<and> pendingMeasurements (disconnectedCallback (showing browser)) = 0
   \<and> cleanupCalls (disconnectedCallback (disconnectedCallback (showing browser))) = [0]"
proof -
  have before: "virtualizerCleanup (showing browser) = Some 0" "rafId (showing browser) = Some 2"
    "animationFrames (showing browser) = [2]" "cleanupCalls (showing browser) = []"
    "host (showing browser) = browser"
    by (simp_all add: showing_browser)
  have path: "showing browser = run [Connected, EngineChanged 0 both_visible 96]
      (created browser Map.empty [first_div, text_node, second_div]
         ((\<lambda>n. Map.empty)(first_div := [''id'' \<mapsto> ''first''])))"
    by (simp add: run_def showing_def connected_def authored_def)
  have full: "has_requestAnimationFrame browser" "has_cancelAnimationFrame browser"
    by (simp_all add: browser_def)
  from teardown_runs_handle_once [of "showing browser" browser
      "[Connected, EngineChanged 0 both_visible 96]" Map.empty "[first_div, text_node, second_div]"
      "(\<lambda>n. Map.empty)(first_div := [''id'' \<mapsto> ''first''])"]
    before path full
  show ?thesis by simp
qed

text \<open>
  The claim as stated fails in the microtask fallback: the measurement callback
  queued when the element was connected is still pending after deactivation.
\<close>

theorem teardown_leaves_microtask_pending:
  "\<not> has_cancelAnimationFrame (host (connected frameless))
   \<and> pendingMeasurements (connected frameless) = 1
   \<and> pendingMeasurements (disconnectedCallback (connected frameless)) = 1"
  by (simp add: pendingMeasurements_def disconnectedCallback_def teardownVirtualizer_def
      stopObservingLightDom_def example_defs element_defs)

end
